theory Spec2Isabelle
  imports Main "HOL-Library.Word"
begin

section \<open>JavaScript values used by the workout tracker\<close>

text \<open>
  A JavaScript string is a sequence of 16-bit code units. Literals of the source are
  written \<open>js ''...''\<close>.
\<close>

type_synonym jsstring = "16 word list"

definition js :: "string \<Rightarrow> jsstring" where
  "js s = map (\<lambda>c. of_nat (of_char c)) s"

text \<open>
  The exceptions the modules can raise, by kind. \<open>TokenNotSet\<close> is the
  \<^verbatim>\<open>Error('GitHub token not set. Call setToken() first.')\<close> of github.js,
  \<open>ApiError\<close> its \<^verbatim>\<open>Error(`GitHub API error: ...`)\<close>, \<open>NetworkError\<close> a rejected
  \<^verbatim>\<open>fetch\<close>; the others are the platform's own (\<^verbatim>\<open>JSON.parse\<close>, property reads
  of \<^verbatim>\<open>null\<close> or \<^verbatim>\<open>undefined\<close>, \<^verbatim>\<open>atob\<close>, \<^verbatim>\<open>encodeURIComponent\<close>).
\<close>

datatype js_error =
    TokenNotSet
  | NetworkError
  | ApiError
  | SyntaxError
  | TypeError
  | InvalidCharacterError
  | URIError

text \<open>
  The values \<^verbatim>\<open>JSON.parse\<close> produces. A workout document is such a value; the
  modules never look inside it. Objects keep their properties in order. Numbers are
  integers here (the documents hold identifiers, weights and seconds).
\<close>

datatype json =
    JNull
  | JBool bool
  | JNum int
  | JStr jsstring
  | JArr "json list"
  | JObj "(jsstring \<times> json) list"

text \<open>
  Reading a property \<^verbatim>\<open>v.k\<close> of a parsed value, for the names the modules read
  (\<^verbatim>\<open>data\<close>, \<^verbatim>\<open>sha\<close>, \<^verbatim>\<open>lastSync\<close>, \<^verbatim>\<open>content\<close>, \<^verbatim>\<open>message\<close>), none of
  which is a property of a string, number, boolean or array: \<^verbatim>\<open>null.k\<close> throws a
  TypeError, an object gives the property or \<^verbatim>\<open>undefined\<close> (\<open>None\<close>), every other
  value gives \<^verbatim>\<open>undefined\<close>.
\<close>

fun get_prop :: "json \<Rightarrow> jsstring \<Rightarrow> js_error + json option" where
  "get_prop JNull k = Inl TypeError"
| "get_prop (JObj kvs) k = Inr (map_of kvs k)"
| "get_prop v k = Inr None"

text \<open>Truthiness of a string or \<^verbatim>\<open>null\<close>: \<^verbatim>\<open>null\<close> and the empty string are falsy.\<close>

fun truthy :: "jsstring option \<Rightarrow> bool" where
  "truthy None = False"
| "truthy (Some s) = (s \<noteq> [])"

section \<open>github.js: the base64 transforms of the remote client\<close>

subsection \<open>encodeURIComponent, unescape\<close>

definition is_alnum :: "nat \<Rightarrow> bool" where
  "is_alnum n \<longleftrightarrow> (48 \<le> n \<and> n \<le> 57) \<or> (65 \<le> n \<and> n \<le> 90) \<or> (97 \<le> n \<and> n \<le> 122)"

text \<open>The characters \<^verbatim>\<open>encodeURIComponent\<close> leaves alone: alphanumerics and \<^verbatim>\<open>-_.!~*'()\<close>.\<close>

definition uriUnreserved :: "nat \<Rightarrow> bool" where
  "uriUnreserved n \<longleftrightarrow> is_alnum n \<or> n \<in> set [45, 95, 46, 33, 126, 42, 39, 40, 41]"

text \<open>The UTF-8 octets of a code point.\<close>

definition utf8 :: "nat \<Rightarrow> nat list" where
  "utf8 cp =
     (if cp < 0x80 then [cp]
      else if cp < 0x800 then [0xC0 + cp div 64, 0x80 + cp mod 64]
      else if cp < 0x10000 then
        [0xE0 + cp div 4096, 0x80 + (cp div 64) mod 64, 0x80 + cp mod 64]
      else
        [0xF0 + cp div 262144, 0x80 + (cp div 4096) mod 64,
         0x80 + (cp div 64) mod 64, 0x80 + cp mod 64])"

definition hexDigit :: "nat \<Rightarrow> 16 word" where
  "hexDigit n = of_nat (if n < 10 then 48 + n else 55 + n)"

definition percent :: "nat \<Rightarrow> jsstring" where
  "percent b = [0x25, hexDigit (b div 16), hexDigit (b mod 16)]"

definition isLead :: "nat \<Rightarrow> bool" where
  "isLead n \<longleftrightarrow> 0xD800 \<le> n \<and> n \<le> 0xDBFF"

definition isTrail :: "nat \<Rightarrow> bool" where
  "isTrail n \<longleftrightarrow> 0xDC00 \<le> n \<and> n \<le> 0xDFFF"

text \<open>
  \<^verbatim>\<open>encodeURIComponent\<close>: an unreserved code unit is kept; any other code point is
  replaced by the percent-escapes of its UTF-8 octets; a surrogate without its partner
  throws a URIError.
\<close>

fun encodeURIComponent :: "jsstring \<Rightarrow> js_error + jsstring" where
  "encodeURIComponent [] = Inr []"
| "encodeURIComponent (c # cs) =
     (if uriUnreserved (unat c) then
        (case encodeURIComponent cs of Inl e \<Rightarrow> Inl e | Inr r \<Rightarrow> Inr (c # r))
      else if isTrail (unat c) then Inl URIError
      else if isLead (unat c) then
        (case cs of
           [] \<Rightarrow> Inl URIError
         | d # ds \<Rightarrow>
             if isTrail (unat d) then
               (case encodeURIComponent ds of
                  Inl e \<Rightarrow> Inl e
                | Inr r \<Rightarrow>
                    Inr (concat (map percent
                      (utf8 ((unat c - 0xD800) * 0x400 + (unat d - 0xDC00) + 0x10000))) @ r))
             else Inl URIError)
      else
        (case encodeURIComponent cs of
           Inl e \<Rightarrow> Inl e
         | Inr r \<Rightarrow> Inr (concat (map percent (utf8 (unat c))) @ r)))"

definition isHex :: "16 word \<Rightarrow> bool" where
  "isHex c \<longleftrightarrow> (let n = unat c in
     (48 \<le> n \<and> n \<le> 57) \<or> (65 \<le> n \<and> n \<le> 70) \<or> (97 \<le> n \<and> n \<le> 102))"

definition hexVal :: "16 word \<Rightarrow> nat" where
  "hexVal c = (let n = unat c in
     if n \<le> 57 then n - 48 else if n \<le> 70 then n - 55 else n - 87)"

definition hexNumber :: "jsstring \<Rightarrow> 16 word" where
  "hexNumber hs = of_nat (foldl (\<lambda>a h. a * 16 + hexVal h) 0 hs)"

text \<open>
  \<^verbatim>\<open>unescape\<close>: \<^verbatim>\<open>%uXXXX\<close> and \<^verbatim>\<open>%XX\<close> become the code unit of that number;
  everything else is kept.
\<close>

function unescape :: "jsstring \<Rightarrow> jsstring" where
  "unescape [] = []"
| "unescape (c # cs) =
     (if c = 0x25 \<and> 5 \<le> length cs \<and> hd cs = 0x75 \<and> list_all isHex (take 4 (tl cs))
        then hexNumber (take 4 (tl cs)) # unescape (drop 5 cs)
      else if c = 0x25 \<and> 2 \<le> length cs \<and> list_all isHex (take 2 cs)
        then hexNumber (take 2 cs) # unescape (drop 2 cs)
      else c # unescape cs)"
  by pat_completeness auto
termination
  by (relation "measure length") auto

subsection \<open>btoa, atob\<close>

definition b64Char :: "nat \<Rightarrow> 16 word" where
  "b64Char n = of_nat
     (if n < 26 then 65 + n else if n < 52 then 71 + n else if n < 62 then n - 4
      else if n = 62 then 43 else 47)"

definition b64Index :: "16 word \<Rightarrow> nat option" where
  "b64Index c = (let n = unat c in
     if 65 \<le> n \<and> n \<le> 90 then Some (n - 65)
     else if 97 \<le> n \<and> n \<le> 122 then Some (n - 71)
     else if 48 \<le> n \<and> n \<le> 57 then Some (n + 4)
     else if n = 43 then Some 62
     else if n = 47 then Some 63
     else None)"

fun b64Encode :: "nat list \<Rightarrow> jsstring" where
  "b64Encode [] = []"
| "b64Encode [a] = [b64Char (a div 4), b64Char ((a mod 4) * 16), 0x3D, 0x3D]"
| "b64Encode [a, b] =
     [b64Char (a div 4), b64Char ((a mod 4) * 16 + b div 16), b64Char ((b mod 16) * 4), 0x3D]"
| "b64Encode (a # b # c # r) =
     [b64Char (a div 4), b64Char ((a mod 4) * 16 + b div 16),
      b64Char ((b mod 16) * 4 + c div 64), b64Char (c mod 64)] @ b64Encode r"

text \<open>\<^verbatim>\<open>btoa\<close> throws on a code unit above 255 and encodes the others as octets.\<close>

definition btoa :: "jsstring \<Rightarrow> js_error + jsstring" where
  "btoa s =
     (if list_all (\<lambda>c. unat c \<le> 255) s then Inr (b64Encode (map unat s))
      else Inl InvalidCharacterError)"

fun b64Decode :: "nat list \<Rightarrow> nat list" where
  "b64Decode (a # b # c # d # r) =
     [a * 4 + b div 16, (b mod 16) * 16 + c div 4, (c mod 4) * 64 + d] @ b64Decode r"
| "b64Decode [a, b, c] = [a * 4 + b div 16, (b mod 16) * 16 + c div 4]"
| "b64Decode [a, b] = [a * 4 + b div 16]"
| "b64Decode r = []"

definition isAsciiWhitespace :: "16 word \<Rightarrow> bool" where
  "isAsciiWhitespace c \<longleftrightarrow> unat c \<in> set [9, 10, 12, 13, 32]"

definition stripPadding :: "jsstring \<Rightarrow> jsstring" where
  "stripPadding d =
     (if length d mod 4 = 0 \<and> d \<noteq> [] \<and> last d = 0x3D then
        (if last (butlast d) = 0x3D then butlast (butlast d) else butlast d)
      else d)"

text \<open>
  \<^verbatim>\<open>atob\<close> (the forgiving base64 decode of the HTML standard): whitespace is removed,
  then up to two padding characters when the length is a multiple of four; a length of
  1 modulo 4 or a character outside the alphabet throws; left-over bits are dropped.
  The result has one code unit per decoded octet.
\<close>

definition atob :: "jsstring \<Rightarrow> js_error + jsstring" where
  "atob s =
     (let d = stripPadding (filter (\<lambda>c. \<not> isAsciiWhitespace c) s) in
      if length d mod 4 = 1 then Inl InvalidCharacterError
      else
        (case those (map b64Index d) of
           None \<Rightarrow> Inl InvalidCharacterError
         | Some ix \<Rightarrow> Inr (map of_nat (b64Decode ix))))"

text \<open>
  commitFile, line 89: \<^verbatim>\<open>btoa(unescape(encodeURIComponent(content)))\<close>, and getFile,
  line 61: \<^verbatim>\<open>atob(data.content.replace(/\n/g, ''))\<close>.
\<close>

definition commitFile_encode :: "jsstring \<Rightarrow> js_error + jsstring" where
  "commitFile_encode content =
     (case encodeURIComponent content of
        Inl e \<Rightarrow> Inl e
      | Inr escaped \<Rightarrow> btoa (unescape escaped))"

definition getFile_decode :: "jsstring \<Rightarrow> js_error + jsstring" where
  "getFile_decode content = atob (filter (\<lambda>c. c \<noteq> 0x0A) content)"

section \<open>The browser: localStorage, the URL fragment, the client's token\<close>

text \<open>
  A localStorage item the modules read with \<^verbatim>\<open>JSON.parse\<close> is represented by what
  reading it does: \<open>Absent\<close> (\<^verbatim>\<open>getItem\<close> gives \<^verbatim>\<open>null\<close>), \<open>Blank\<close> (the empty
  string, which is falsy, so \<^verbatim>\<open>JSON.parse\<close> is not reached), \<open>Corrupt\<close> (a string on
  which \<^verbatim>\<open>JSON.parse\<close> throws a SyntaxError) or \<open>Holds v\<close> (a string that parses to
  \<open>v\<close>). \<^verbatim>\<open>setItem(k, JSON.stringify(v))\<close> stores \<open>Holds v\<close>: a JSON value survives
  \<^verbatim>\<open>JSON.stringify\<close> and \<^verbatim>\<open>JSON.parse\<close>. The item under
  \<^verbatim>\<open>gainsApp.pendingSaves\<close> holds an array when it parses, as every write of it does;
  a string there that parses to another value is outside this model.
\<close>

datatype 'a slot = Absent | Blank | Corrupt | Holds 'a

text \<open>
  A record of each invocation of the remote client, with the value of its module
  variable \<^verbatim>\<open>authToken\<close> at that moment (and, for a commit, the content and the
  revision passed).
\<close>

datatype call =
    GetFileCall "jsstring option"
  | CommitFileCall "jsstring option" jsstring "json option"

record browser =
  cache_item :: "json slot"  \<comment> \<open>localStorage, key \<^verbatim>\<open>gainsApp.workoutDataCache\<close>\<close>
  pending_item :: "json list slot"  \<comment> \<open>localStorage, key \<^verbatim>\<open>gainsApp.pendingSaves\<close>\<close>
  token_item :: "jsstring option"  \<comment> \<open>localStorage, key \<^verbatim>\<open>gainsApp.githubToken\<close>\<close>
  location_hash :: jsstring  \<comment> \<open>\<^verbatim>\<open>window.location.hash\<close>\<close>
  authToken :: "jsstring option"  \<comment> \<open>github.js, \<^verbatim>\<open>let authToken = null\<close>\<close>
  calls :: "call list"  \<comment> \<open>the invocations of getFile and commitFile so far\<close>

text \<open>
  What a \<^verbatim>\<open>fetch\<close> gives: a rejected promise, or a response with its status and its
  body as \<^verbatim>\<open>response.json()\<close> reads it.
\<close>

datatype body = Unparsable | Parsed json

datatype fetched = Rejected | Response nat body

text \<open>
  What one operation takes from outside: the readings of the clock
  (\<^verbatim>\<open>new Date().toISOString()\<close>, in the order the code takes them), the answers of
  the network, and the platform's \<^verbatim>\<open>JSON.parse\<close> and \<^verbatim>\<open>JSON.stringify(_, null, 2)\<close>
  on the text exchanged with GitHub (\<open>None\<close>: a SyntaxError).
\<close>

record env =
  now_sync :: jsstring
  now_message :: jsstring
  now_queue :: jsstring
  get_response :: fetched
  put_response :: fetched
  raw_response :: fetched
  JSON_parse :: "jsstring \<Rightarrow> json option"
  JSON_stringify :: "json \<Rightarrow> jsstring"

subsection \<open>tokenStorage.js\<close>

text \<open>
  The variant that keeps the token in localStorage (part 001, entered on the settings
  page): \<^verbatim>\<open>localStorage.getItem(TOKEN_KEY)\<close>. It goes with the coordinator that has the
  pending queue; the coordinator of workoutData.js asks for the token of the URL. Both
  give a string or \<^verbatim>\<open>null\<close>, and the coordinators only test it for truthiness.
\<close>

definition loadToken_A :: "browser \<Rightarrow> jsstring option" where
  "loadToken_A s = token_item s"

text \<open>\<^verbatim>\<open>s.includes(sep)\<close> and \<^verbatim>\<open>s.split(sep)\<close> for a separator that is not empty.\<close>

fun str_includes :: "jsstring \<Rightarrow> jsstring \<Rightarrow> bool" where
  "str_includes sep [] = (sep = [])"
| "str_includes sep (c # cs) = (take (length sep) (c # cs) = sep \<or> str_includes sep cs)"

function str_split :: "jsstring \<Rightarrow> jsstring \<Rightarrow> jsstring \<Rightarrow> jsstring list" where
  "str_split sep acc [] = [rev acc]"
| "str_split sep acc (c # cs) =
     (if sep \<noteq> [] \<and> take (length sep) (c # cs) = sep
      then rev acc # str_split sep [] (drop (length sep) (c # cs))
      else str_split sep (c # acc) cs)"
  by pat_completeness auto
termination
  by (relation "measure (\<lambda>(sep, acc, s). length s)") auto

text \<open>
  The variant that reads the token from the URL fragment:
  \<^verbatim>\<open>hash.split('token=')[1].split('&')[0]\<close>, and \<^verbatim>\<open>token || null\<close>. The fragment
  includes \<^verbatim>\<open>token=\<close> there, so the split has a second piece.
\<close>

definition loadToken_B :: "browser \<Rightarrow> jsstring option" where
  "loadToken_B s =
     (let hash = location_hash s in
      if hash \<noteq> [] \<and> str_includes (js ''token='') hash then
        (case str_split (js ''token='') [] hash of
           _ # piece # _ \<Rightarrow>
             (let token = hd (str_split (js ''&'') [] piece) in
              if token \<noteq> [] then Some token else None)
         | _ \<Rightarrow> None)
      else None)"

subsection \<open>github.js: setToken, getFile, commitFile\<close>

definition setToken :: "jsstring \<Rightarrow> browser \<Rightarrow> browser" where
  "setToken token s = s\<lparr>authToken := Some token\<rparr>"

definition ok :: "nat \<Rightarrow> bool" where
  "ok st \<longleftrightarrow> 200 \<le> st \<and> st \<le> 299"

text \<open>
  \<^verbatim>\<open>const error = await response.json(); throw new Error(`GitHub API error: ...`)\<close>:
  reading the body can throw first, and so can \<^verbatim>\<open>error.message\<close> when the body is
  \<^verbatim>\<open>null\<close>. The text of the message is not modelled.
\<close>

definition apiFailure :: "body \<Rightarrow> js_error" where
  "apiFailure b =
     (case b of
        Unparsable \<Rightarrow> SyntaxError
      | Parsed err \<Rightarrow> (case get_prop err (js ''message'') of Inl e \<Rightarrow> e | Inr _ \<Rightarrow> ApiError))"

record remote_file =
  file_content :: jsstring
  file_sha :: "json option"

definition getFile_result :: "jsstring option \<Rightarrow> fetched \<Rightarrow> js_error + remote_file option" where
  "getFile_result token r =
     (if \<not> truthy token then Inl TokenNotSet
      else
        (case r of
           Rejected \<Rightarrow> Inl NetworkError
         | Response st b \<Rightarrow>
             if st = 404 then Inr None
             else if \<not> ok st then Inl (apiFailure b)
             else
               (case b of
                  Unparsable \<Rightarrow> Inl SyntaxError
                | Parsed data \<Rightarrow>
                    (case get_prop data (js ''content'') of
                       Inl e \<Rightarrow> Inl e
                     | Inr (Some (JStr c)) \<Rightarrow>
                         (case getFile_decode c of
                            Inl e \<Rightarrow> Inl e
                          | Inr text \<Rightarrow>
                              (case get_prop data (js ''sha'') of
                                 Inl e \<Rightarrow> Inl e
                               | Inr sha \<Rightarrow>
                                   Inr (Some \<lparr>file_content = text, file_sha = sha\<rparr>)))
                     | Inr _ \<Rightarrow> Inl TypeError))))"

definition getFile :: "browser \<Rightarrow> fetched \<Rightarrow> (js_error + remote_file option) \<times> browser" where
  "getFile s r =
     (getFile_result (authToken s) r, s\<lparr>calls := calls s @ [GetFileCall (authToken s)]\<rparr>)"

record committed =
  new_sha :: "json option"
  commit :: "json option"

text \<open>
  The request carries the content, the message and, when it is truthy, the revision;
  the answer of the network is taken from outside as it comes, so of the request only
  the encoding of the content, which can throw, is kept.
\<close>

definition commitFile_result ::
  "jsstring option \<Rightarrow> jsstring \<Rightarrow> fetched \<Rightarrow> js_error + committed" where
  "commitFile_result token content r =
     (if \<not> truthy token then Inl TokenNotSet
      else
        (case commitFile_encode content of
           Inl e \<Rightarrow> Inl e
         | Inr encoded \<Rightarrow>
             (case r of
                Rejected \<Rightarrow> Inl NetworkError
              | Response st b \<Rightarrow>
                  if \<not> ok st then Inl (apiFailure b)
                  else
                    (case b of
                       Unparsable \<Rightarrow> Inl SyntaxError
                     | Parsed data \<Rightarrow>
                         (case get_prop data (js ''content'') of
                            Inl e \<Rightarrow> Inl e
                          | Inr None \<Rightarrow> Inl TypeError
                          | Inr (Some c) \<Rightarrow>
                              (case get_prop c (js ''sha'') of
                                 Inl e \<Rightarrow> Inl e
                               | Inr sha \<Rightarrow>
                                   (case get_prop data (js ''commit'') of
                                      Inl e \<Rightarrow> Inl e
                                    | Inr cm \<Rightarrow> Inr \<lparr>new_sha = sha, commit = cm\<rparr>)))))))"

definition commitFile ::
  "browser \<Rightarrow> jsstring \<Rightarrow> jsstring \<Rightarrow> json option \<Rightarrow> fetched \<Rightarrow> (js_error + committed) \<times> browser" where
  "commitFile s content message sha r =
     (commitFile_result (authToken s) content r,
      s\<lparr>calls := calls s @ [CommitFileCall (authToken s) content sha]\<rparr>)"

section \<open>The sync coordinator\<close>

subsection \<open>What both variants share\<close>

text \<open>
  The cache entry as \<^verbatim>\<open>JSON.stringify\<close> writes it: \<^verbatim>\<open>{data, sha, lastSync}\<close>, where a
  \<^verbatim>\<open>sha\<close> that is \<^verbatim>\<open>undefined\<close> is left out. The variant of workoutData.js writes
  \<^verbatim>\<open>{data, lastSync}\<close>, which is the same entry without a \<^verbatim>\<open>sha\<close>.
\<close>

definition cacheEntry :: "json \<Rightarrow> json option \<Rightarrow> jsstring \<Rightarrow> json" where
  "cacheEntry d sha t =
     JObj ([(js ''data'', d)] @ (case sha of None \<Rightarrow> [] | Some v \<Rightarrow> [(js ''sha'', v)])
           @ [(js ''lastSync'', JStr t)])"

definition emptyDocument :: json where
  "emptyDocument = JObj [(js ''workoutHistory'', JArr []), (js ''workoutDurations'', JObj [])]"

text \<open>\<^verbatim>\<open>if (cached) { ... JSON.parse(cached) ... }\<close>: \<open>None\<close> when the item is falsy.\<close>

definition parseItem :: "'a slot \<Rightarrow> js_error + 'a option" where
  "parseItem c =
     (case c of
        Absent \<Rightarrow> Inr None
      | Blank \<Rightarrow> Inr None
      | Corrupt \<Rightarrow> Inl SyntaxError
      | Holds v \<Rightarrow> Inr (Some v))"

text \<open>
  The end of initWorkoutData in both variants: \<^verbatim>\<open>const { data } = JSON.parse(cached)\<close>
  when the item is truthy, the empty document otherwise. Nothing catches what the parse
  or the destructuring throws.
\<close>

definition cacheFallback :: "browser \<Rightarrow> (js_error + json option) \<times> browser" where
  "cacheFallback s =
     (case parseItem (cache_item s) of
        Inl e \<Rightarrow> (Inl e, s)
      | Inr None \<Rightarrow> (Inr (Some emptyDocument), s)
      | Inr (Some parsed) \<Rightarrow>
          (case get_prop parsed (js ''data'') of
             Inl e \<Rightarrow> (Inl e, s)
           | Inr d \<Rightarrow> (Inr d, s)))"

text \<open>
  The messages of a save, by kind: \<^verbatim>\<open>'No token - saved locally, will sync when token
  added'\<close>, \<^verbatim>\<open>`Saved locally but sync failed: ${error.message}`\<close>, \<^verbatim>\<open>'No token. Add
  #token=YOUR_TOKEN to URL or paste in settings.'\<close> and \<^verbatim>\<open>`Save failed:
  ${error.message}. Data cached locally.`\<close>. Each is a string that is not empty.
\<close>

datatype message =
    NoTokenQueued
  | SyncFailed js_error
  | NoTokenAddToUrl
  | SaveFailed js_error

record save_result =
  success :: bool
  error :: "message option"

text \<open>
  The body of the \<^verbatim>\<open>try\<close> block of saveWorkoutData up to the commit, the same in both
  variants but for the prefix of the commit message: getFile for the latest revision
  (\<^verbatim>\<open>remote ? remote.sha : null\<close>), then commitFile.
\<close>

definition fetchAndCommit ::
  "jsstring \<Rightarrow> browser \<Rightarrow> json \<Rightarrow> env \<Rightarrow> (js_error + committed) \<times> browser" where
  "fetchAndCommit prefix s d e =
     (case getFile s (get_response e) of
        (Inl err, s1) \<Rightarrow> (Inl err, s1)
      | (Inr remote, s1) \<Rightarrow>
          (let latestSha = (case remote of None \<Rightarrow> Some JNull | Some f \<Rightarrow> file_sha f);
               message = prefix @ now_message e;
               content = JSON_stringify e d
           in commitFile s1 content message latestSha (put_response e)))"

subsection \<open>The variant with a pending queue (mode A, part 000)\<close>

definition pendingEntry :: "json \<Rightarrow> jsstring \<Rightarrow> json" where
  "pendingEntry d t = JObj [(js ''data'', d), (js ''timestamp'', JStr t)]"

text \<open>
  getPendingSaves: \<^verbatim>\<open>pending ? JSON.parse(pending) : []\<close>. The source returns whatever
  the parse yields; here the item holds an array when it parses, so a pending item such
  as \<^verbatim>\<open>null\<close>, on which \<^verbatim>\<open>pending.length\<close> and \<^verbatim>\<open>pending.push\<close> throw a
  TypeError, is not among the states of the model.
\<close>

definition getPendingSaves :: "browser \<Rightarrow> js_error + json list" where
  "getPendingSaves s =
     (case parseItem (pending_item s) of
        Inl e \<Rightarrow> Inl e
      | Inr None \<Rightarrow> Inr []
      | Inr (Some pending) \<Rightarrow> Inr pending)"

text \<open>\<^verbatim>\<open>xs.slice(-n)\<close>: the last \<open>n\<close> elements, all of them when there are fewer.\<close>

definition sliceLast :: "nat \<Rightarrow> 'a list \<Rightarrow> 'a list" where
  "sliceLast n xs = drop (length xs - n) xs"

definition addPendingSave :: "browser \<Rightarrow> json \<Rightarrow> jsstring \<Rightarrow> js_error + browser" where
  "addPendingSave s d t =
     (case getPendingSaves s of
        Inl e \<Rightarrow> Inl e
      | Inr pending \<Rightarrow>
          Inr (s\<lparr>pending_item := Holds (sliceLast 5 (pending @ [pendingEntry d t]))\<rparr>))"

definition clearPendingSaves :: "browser \<Rightarrow> browser" where
  "clearPendingSaves s = s\<lparr>pending_item := Absent\<rparr>"

definition initWorkoutData_A :: "browser \<Rightarrow> env \<Rightarrow> (js_error + json option) \<times> browser" where
  "initWorkoutData_A s e =
     (case loadToken_A s of
        None \<Rightarrow> cacheFallback s
      | Some token \<Rightarrow>
          if token = [] then cacheFallback s
          else
            (case getFile (setToken token s) (get_response e) of
               (Inr (Some remote), s1) \<Rightarrow>
                 (case JSON_parse e (file_content remote) of
                    None \<Rightarrow> cacheFallback s1
                  | Some d \<Rightarrow>
                      (Inr (Some d),
                       s1\<lparr>cache_item := Holds (cacheEntry d (file_sha remote) (now_sync e))\<rparr>))
             | (_, s1) \<Rightarrow> cacheFallback s1))"

text \<open>
  saveWorkoutData: the revision of the cache (\<^verbatim>\<open>let currentSha = null\<close>, or
  \<^verbatim>\<open>parsed.sha\<close>), the write of the cache, then the sync. What is thrown outside the
  \<^verbatim>\<open>try\<close> block (by the parse of the cache, by addPendingSave) leaves the function.
\<close>

definition saveWorkoutData_A ::
  "browser \<Rightarrow> json \<Rightarrow> env \<Rightarrow> (js_error + save_result) \<times> browser" where
  "saveWorkoutData_A s d e =
     (case (case parseItem (cache_item s) of
              Inl err \<Rightarrow> Inl err
            | Inr None \<Rightarrow> Inr (Some JNull)
            | Inr (Some parsed) \<Rightarrow> get_prop parsed (js ''sha'')) of
        Inl err \<Rightarrow> (Inl err, s)
      | Inr currentSha \<Rightarrow>
          (let s1 = s\<lparr>cache_item := Holds (cacheEntry d currentSha (now_sync e))\<rparr>;
               noToken =
                 (case addPendingSave s1 d (now_queue e) of
                    Inl err \<Rightarrow> (Inl err, s1)
                  | Inr s2 \<Rightarrow> (Inr \<lparr>success = True, error = Some NoTokenQueued\<rparr>, s2))
           in
             case loadToken_A s1 of
               None \<Rightarrow> noToken
             | Some token \<Rightarrow>
                 if token = [] then noToken
                 else
                   (case fetchAndCommit (js ''Update workout data - '') (setToken token s1) d e of
                      (Inr result, s2) \<Rightarrow>
                        (Inr \<lparr>success = True, error = None\<rparr>,
                         clearPendingSaves
                           (s2\<lparr>cache_item :=
                                 Holds (cacheEntry d (new_sha result) (now_sync e))\<rparr>))
                    | (Inl err, s2) \<Rightarrow>
                        (case addPendingSave s2 d (now_queue e) of
                           Inl err' \<Rightarrow> (Inl err', s2)
                         | Inr s3 \<Rightarrow>
                             (Inr \<lparr>success = True, error = Some (SyncFailed err)\<rparr>, s3)))))"

record retry_result =
  retry_success :: bool
  synced :: nat

text \<open>
  retryPendingSaves: \<^verbatim>\<open>const latestData = pending[pending.length - 1]\<close> is the last
  element of the queue, and it is what saveWorkoutData is called with.
\<close>

definition retryPendingSaves :: "browser \<Rightarrow> env \<Rightarrow> (js_error + retry_result) \<times> browser" where
  "retryPendingSaves s e =
     (case getPendingSaves s of
        Inl err \<Rightarrow> (Inl err, s)
      | Inr pending \<Rightarrow>
          if length pending = 0 then (Inr \<lparr>retry_success = True, synced = 0\<rparr>, s)
          else if \<not> truthy (loadToken_A s) then (Inr \<lparr>retry_success = False, synced = 0\<rparr>, s)
          else
            (let latestData = last pending in
             case saveWorkoutData_A s latestData e of
               (Inl err, s1) \<Rightarrow> (Inl err, s1)
             | (Inr result, s1) \<Rightarrow>
                 if success result \<and> error result = None
                 then (Inr \<lparr>retry_success = True, synced = 1\<rparr>, clearPendingSaves s1)
                 else (Inr \<lparr>retry_success = False, synced = 0\<rparr>, s1)))"

record sync_status_A =
  hasPending :: bool
  pendingCount :: nat
  lastSync :: "json option"

definition getSyncStatus_A :: "browser \<Rightarrow> (js_error + sync_status_A) \<times> browser" where
  "getSyncStatus_A s =
     (case getPendingSaves s of
        Inl err \<Rightarrow> (Inl err, s)
      | Inr pending \<Rightarrow>
          (case (case parseItem (cache_item s) of
                   Inl err \<Rightarrow> Inl err
                 | Inr None \<Rightarrow> Inr (Some JNull)
                 | Inr (Some parsed) \<Rightarrow> get_prop parsed (js ''lastSync'')) of
             Inl err \<Rightarrow> (Inl err, s)
           | Inr l \<Rightarrow>
               (Inr \<lparr>hasPending = (length pending > 0), pendingCount = length pending,
                     lastSync = l\<rparr>, s)))"

subsection \<open>The variant that reads the public file (mode B, workoutData.js)\<close>

definition initWorkoutData_B :: "browser \<Rightarrow> env \<Rightarrow> (js_error + json option) \<times> browser" where
  "initWorkoutData_B s e =
     (case raw_response e of
        Rejected \<Rightarrow> cacheFallback s
      | Response st b \<Rightarrow>
          if ok st then
            (case b of
               Unparsable \<Rightarrow> cacheFallback s
             | Parsed d \<Rightarrow>
                 (Inr (Some d), s\<lparr>cache_item := Holds (cacheEntry d None (now_sync e))\<rparr>))
          else cacheFallback s)"

definition saveWorkoutData_B ::
  "browser \<Rightarrow> json \<Rightarrow> env \<Rightarrow> (js_error + save_result) \<times> browser" where
  "saveWorkoutData_B s d e =
     (let s1 = s\<lparr>cache_item := Holds (cacheEntry d None (now_sync e))\<rparr>;
          noToken = (Inr \<lparr>success = False, error = Some NoTokenAddToUrl\<rparr>, s1)
      in
      case loadToken_B s1 of
        None \<Rightarrow> noToken
      | Some token \<Rightarrow>
          if token = [] then noToken
          else
            (case fetchAndCommit (js ''Workout '') (setToken token s1) d e of
               (Inr result, s2) \<Rightarrow> (Inr \<lparr>success = True, error = None\<rparr>, s2)
             | (Inl err, s2) \<Rightarrow> (Inr \<lparr>success = False, error = Some (SaveFailed err)\<rparr>, s2)))"

record sync_status_B =
  hasToken :: bool
  lastSync_B :: "json option"

definition getSyncStatus_B :: "browser \<Rightarrow> (js_error + sync_status_B) \<times> browser" where
  "getSyncStatus_B s =
     (case (case parseItem (cache_item s) of
              Inl err \<Rightarrow> Inl err
            | Inr None \<Rightarrow> Inr (Some JNull)
            | Inr (Some parsed) \<Rightarrow> get_prop parsed (js ''lastSync'')) of
        Inl err \<Rightarrow> (Inl err, s)
      | Inr l \<Rightarrow> (Inr \<lparr>hasToken = (loadToken_B s \<noteq> None), lastSync_B = l\<rparr>, s))"

section \<open>Notions used to state the properties\<close>

text \<open>The value of \<^verbatim>\<open>authToken\<close> that an invocation of the remote client found.\<close>

definition callToken :: "call \<Rightarrow> jsstring option" where
  "callToken c = (case c of GetFileCall t \<Rightarrow> t | CommitFileCall t _ _ \<Rightarrow> t)"

text \<open>
  A cache item that the modules can read without an exception: it is absent, empty, or a
  string that parses to a value other than \<^verbatim>\<open>null\<close>.
\<close>

definition readable :: "json slot \<Rightarrow> bool" where
  "readable c \<longleftrightarrow> c \<noteq> Corrupt \<and> c \<noteq> Holds JNull"

text \<open>
  The document that the remote read of initWorkoutData delivers in mode A: none when
  there is no credential, when getFile throws or finds no file, or when the content does
  not parse.
\<close>

definition remoteDocument_A :: "browser \<Rightarrow> env \<Rightarrow> json option" where
  "remoteDocument_A s e =
     (case loadToken_A s of
        None \<Rightarrow> None
      | Some token \<Rightarrow>
          if token = [] then None
          else
            (case getFile_result (Some token) (get_response e) of
               Inr (Some remote) \<Rightarrow> JSON_parse e (file_content remote)
             | _ \<Rightarrow> None))"

text \<open>
  The public read of mode B fails: the fetch is rejected, the response is not ok, or its
  body is not JSON.
\<close>

definition publicReadFails :: "env \<Rightarrow> bool" where
  "publicReadFails e \<longleftrightarrow>
     (case raw_response e of Rejected \<Rightarrow> True | Response st b \<Rightarrow> \<not> ok st \<or> b = Unparsable)"

text \<open>A save that reports a message: the remote was not reached, or the sync failed.\<close>

definition reportsFailure :: "js_error + save_result \<Rightarrow> bool" where
  "reportsFailure r = (case r of Inl _ \<Rightarrow> False | Inr res \<Rightarrow> error res \<noteq> None)"

text \<open>Saves in mode A one after the other, each with its document and its outside world.\<close>

fun runSaves_A :: "browser \<Rightarrow> (json \<times> env) list \<Rightarrow> (js_error + save_result) list \<times> browser" where
  "runSaves_A s [] = ([], s)"
| "runSaves_A s ((d, e) # rest) =
     (case saveWorkoutData_A s d e of
        (r, s1) \<Rightarrow> (case runSaves_A s1 rest of (rs, s2) \<Rightarrow> (r # rs, s2)))"

text \<open>The pending queue as getPendingSaves reads it from an item that parses.\<close>

definition queueOf :: "browser \<Rightarrow> json list" where
  "queueOf s = (case pending_item s of Holds q \<Rightarrow> q | _ \<Rightarrow> [])"

subsection \<open>Sample browsers, documents and networks\<close>

definition freshBrowser :: browser where
  "freshBrowser = \<lparr>cache_item = Absent, pending_item = Absent, token_item = None,
     location_hash = [], authToken = None, calls = []\<rparr>"

text \<open>A browser with a token, in localStorage and in the URL fragment.\<close>

definition signedIn :: browser where
  "signedIn = freshBrowser\<lparr>token_item := Some (js ''ghp_1''),
     location_hash := js ''#token=ghp_1''\<rparr>"

definition sampleDoc :: "int \<Rightarrow> json" where
  "sampleDoc n = JObj [(js ''workoutHistory'', JArr [JObj [(js ''id'', JNum n)]]),
     (js ''workoutDurations'', JObj [])]"

text \<open>
  No network: every fetch is rejected. The two platform functions of the samples are
  stand-ins (no text parses, every value prints as \<^verbatim>\<open>{}\<close>); the properties are proved
  for all such functions.
\<close>

definition offline :: env where
  "offline = \<lparr>now_sync = js ''T1'', now_message = js ''T2'', now_queue = js ''T3'',
     get_response = Rejected, put_response = Rejected, raw_response = Rejected,
     JSON_parse = (\<lambda>_. None), JSON_stringify = (\<lambda>_. js ''{}'')\<rparr>"

text \<open>GitHub has no file yet and accepts the commit, answering with the new revision.\<close>

definition accepting :: env where
  "accepting = offline\<lparr>get_response := Response 404 Unparsable,
     put_response := Response 201
       (Parsed (JObj [(js ''content'', JObj [(js ''sha'', JStr (js ''def''))])]))\<rparr>"

text \<open>GitHub rejects the commit (409: the revision sent is not the current one).\<close>

definition rejecting :: env where
  "rejecting = offline\<lparr>get_response := Response 404 Unparsable,
     put_response := Response 409 (Parsed (JObj [(js ''message'', JStr (js ''conflict''))]))\<rparr>"

text \<open>
  A browser in which a save of \<open>sampleDoc 2\<close> was queued for lack of a token, and the
  token was entered afterwards.
\<close>

definition queuedBrowser :: browser where
  "queuedBrowser =
     (snd (saveWorkoutData_A freshBrowser (sampleDoc 2) offline))\<lparr>token_item := Some (js ''ghp_1'')\<rparr>"

text \<open>A browser with a token and three saves waiting in the queue.\<close>

definition backlogBrowser :: browser where
  "backlogBrowser = signedIn\<lparr>pending_item :=
     Holds [pendingEntry (sampleDoc 1) (js ''T1''), pendingEntry (sampleDoc 2) (js ''T2''),
            pendingEntry (sampleDoc 3) (js ''T3'')]\<rparr>"

section \<open>Lemmas about the model\<close>

lemma get_prop_cacheEntry_data: "get_prop (cacheEntry d sha t) (js ''data'') = Inr (Some d)"
  by (simp add: cacheEntry_def)

lemma get_prop_not_null: "v \<noteq> JNull \<Longrightarrow> \<exists>x. get_prop v k = Inr x"
  by (cases v) simp_all

lemma fetchAndCommit_fst:
  "fst (fetchAndCommit p s d e) =
     (case getFile_result (authToken s) (get_response e) of
        Inl err \<Rightarrow> Inl err
      | Inr remote \<Rightarrow> commitFile_result (authToken s) (JSON_stringify e d) (put_response e))"
  by (simp add: fetchAndCommit_def getFile_def commitFile_def Let_def split: sum.splits)

lemma fetchAndCommit_frame:
  "cache_item (snd (fetchAndCommit p s d e)) = cache_item s"
  "pending_item (snd (fetchAndCommit p s d e)) = pending_item s"
  "token_item (snd (fetchAndCommit p s d e)) = token_item s"
  "location_hash (snd (fetchAndCommit p s d e)) = location_hash s"
  "authToken (snd (fetchAndCommit p s d e)) = authToken s"
  by (cases "getFile_result (authToken s) (get_response e)";
      simp add: fetchAndCommit_def getFile_def commitFile_def Let_def)+

lemma fetchAndCommit_frameD:
  "fetchAndCommit p s d e = (r, s') \<Longrightarrow>
     cache_item s' = cache_item s \<and> pending_item s' = pending_item s \<and>
     token_item s' = token_item s \<and> location_hash s' = location_hash s \<and>
     authToken s' = authToken s"
  using fetchAndCommit_frame [of p s d e] by simp

lemma fetchAndCommit_calls:
  "\<exists>cs. calls (snd (fetchAndCommit p s d e)) = calls s @ cs \<and> cs \<noteq> []
     \<and> list_all (\<lambda>c. callToken c = authToken s) cs"
  by (cases "getFile_result (authToken s) (get_response e)")
     (simp_all add: fetchAndCommit_def getFile_def commitFile_def callToken_def Let_def)

lemma addPendingSaveD:
  "addPendingSave s d t = Inr s' \<Longrightarrow>
     cache_item s' = cache_item s \<and> token_item s' = token_item s \<and>
     location_hash s' = location_hash s \<and> authToken s' = authToken s \<and> calls s' = calls s \<and>
     (\<exists>q. getPendingSaves s = Inr q \<and>
          pending_item s' = Holds (sliceLast 5 (q @ [pendingEntry d t])))"
  by (auto simp: addPendingSave_def split: sum.splits)

lemma saveWorkoutData_A_cache:
  "fst (saveWorkoutData_A s d e) = Inr r \<Longrightarrow>
     \<exists>sha. cache_item (snd (saveWorkoutData_A s d e)) = Holds (cacheEntry d sha (now_sync e))"
  by (auto simp: saveWorkoutData_A_def Let_def clearPendingSaves_def setToken_def
      split: sum.splits option.splits prod.splits if_splits
      dest!: fetchAndCommit_frameD addPendingSaveD)

lemma saveWorkoutData_B_cache:
  "cache_item (snd (saveWorkoutData_B s d e)) = Holds (cacheEntry d None (now_sync e))"
  by (auto simp: saveWorkoutData_B_def Let_def setToken_def
      split: sum.splits option.splits prod.splits if_splits
      dest!: fetchAndCommit_frameD)

lemma saveWorkoutData_B_returns: "\<exists>r. fst (saveWorkoutData_B s d e) = Inr r"
  by (auto simp: saveWorkoutData_B_def Let_def
      split: sum.splits option.splits prod.splits if_splits)

lemma cacheFallback_cached:
  "cache_item s = Holds (cacheEntry d sha t) \<Longrightarrow> fst (cacheFallback s) = Inr (Some d)"
  by (simp add: cacheFallback_def parseItem_def get_prop_cacheEntry_data)

lemma initWorkoutData_A_no_token:
  "\<not> truthy (loadToken_A s) \<Longrightarrow> initWorkoutData_A s e = cacheFallback s"
  by (cases "loadToken_A s") (simp_all add: initWorkoutData_A_def)

lemma initWorkoutData_B_fails:
  "publicReadFails e \<Longrightarrow> initWorkoutData_B s e = cacheFallback s"
  by (auto simp: initWorkoutData_B_def publicReadFails_def split: fetched.splits body.splits)

text \<open>The definitions that evaluate the model on the sample browsers and networks.\<close>

lemmas sample_defs = freshBrowser_def signedIn_def offline_def accepting_def rejecting_def
  sampleDoc_def queuedBrowser_def backlogBrowser_def

lemmas codec_defs = commitFile_encode_def uriUnreserved_def is_alnum_def isTrail_def isLead_def
  utf8_def percent_def hexDigit_def btoa_def isHex_def hexNumber_def hexVal_def b64Char_def
  getFile_decode_def atob_def stripPadding_def isAsciiWhitespace_def b64Index_def js_def

lemmas client_defs = fetchAndCommit_def getFile_def commitFile_def getFile_result_def
  commitFile_result_def ok_def apiFailure_def

lemmas coordinator_defs = saveWorkoutData_A_def saveWorkoutData_B_def initWorkoutData_A_def
  initWorkoutData_B_def retryPendingSaves_def getSyncStatus_A_def getSyncStatus_B_def
  cacheFallback_def parseItem_def addPendingSave_def getPendingSaves_def clearPendingSaves_def
  sliceLast_def pendingEntry_def cacheEntry_def loadToken_A_def setToken_def Let_def

lemma cacheFallback_fst:
  "fst (cacheFallback s) =
     (case cache_item s of
        Holds v \<Rightarrow> get_prop v (js ''data'')
      | Corrupt \<Rightarrow> Inl SyntaxError
      | _ \<Rightarrow> Inr (Some emptyDocument))"
  by (cases "cache_item s")
     (auto simp: cacheFallback_def parseItem_def split: sum.splits)

lemma initWorkoutData_A_fallback:
  "remoteDocument_A s e = None \<Longrightarrow>
     \<exists>s'. cache_item s' = cache_item s \<and> fst (initWorkoutData_A s e) = fst (cacheFallback s')"
  by (auto simp: initWorkoutData_A_def remoteDocument_A_def getFile_def setToken_def
      split: option.splits sum.splits prod.splits
      intro: exI[of _ s] exI[of _ "snd (getFile (setToken t s) r)" for t r])

lemma initWorkoutData_A_remote:
  "remoteDocument_A s e = Some d \<Longrightarrow> fst (initWorkoutData_A s e) = Inr (Some d)"
  by (auto simp: initWorkoutData_A_def remoteDocument_A_def getFile_def setToken_def
      split: option.splits sum.splits prod.splits if_splits)

lemma initWorkoutData_B_ok:
  "\<not> publicReadFails e \<Longrightarrow> \<exists>d. fst (initWorkoutData_B s e) = Inr (Some d)"
  by (auto simp: initWorkoutData_B_def publicReadFails_def split: fetched.splits body.splits)

lemma readable_fallback:
  "readable c \<Longrightarrow>
     \<exists>v. (case c of Holds v \<Rightarrow> get_prop v (js ''data'') | Corrupt \<Rightarrow> Inl SyntaxError
            | _ \<Rightarrow> Inr (Some emptyDocument)) = Inr v"
  by (cases c) (auto simp: readable_def dest: get_prop_not_null)

lemma getSyncStatus_A_snd: "snd (getSyncStatus_A s) = s"
  by (simp add: getSyncStatus_A_def split: sum.splits option.splits)

lemma getSyncStatus_B_snd: "snd (getSyncStatus_B s) = s"
  by (simp add: getSyncStatus_B_def split: sum.splits option.splits)

lemma getPendingSaves_queue:
  "pending_item s \<noteq> Corrupt \<Longrightarrow> getPendingSaves s = Inr (queueOf s)"
  by (cases "pending_item s") (simp_all add: getPendingSaves_def parseItem_def queueOf_def)

lemma getPendingSaves_Inr:
  "getPendingSaves s = Inr q \<Longrightarrow> pending_item s \<noteq> Corrupt \<and> queueOf s = q"
  by (cases "pending_item s") (auto simp: getPendingSaves_def parseItem_def queueOf_def)

lemma readable_lastSync:
  "readable c \<Longrightarrow>
     (case parseItem c of
        Inl err \<Rightarrow> Inl err
      | Inr None \<Rightarrow> Inr (Some JNull)
      | Inr (Some parsed) \<Rightarrow> get_prop parsed (js ''lastSync'')) =
     Inr (case c of
            Holds (JObj kvs) \<Rightarrow> map_of kvs (js ''lastSync'')
          | Holds _ \<Rightarrow> None
          | _ \<Rightarrow> Some JNull)"
  by (cases c; cases "case c of Holds v \<Rightarrow> v | _ \<Rightarrow> JBool True")
     (simp_all add: readable_def parseItem_def)

lemma addPendingSave_queue:
  "addPendingSave s d t = Inr s' \<Longrightarrow>
     cache_item s' = cache_item s \<and> token_item s' = token_item s \<and>
     location_hash s' = location_hash s \<and> authToken s' = authToken s \<and> calls s' = calls s \<and>
     pending_item s \<noteq> Corrupt \<and>
     pending_item s' = Holds (sliceLast 5 (queueOf s @ [pendingEntry d t]))"
  by (auto simp: addPendingSave_def dest!: getPendingSaves_Inr split: sum.splits)

lemma addPendingSave_total:
  "pending_item s \<noteq> Corrupt \<Longrightarrow>
     addPendingSave s d t =
       Inr (s\<lparr>pending_item := Holds (sliceLast 5 (queueOf s @ [pendingEntry d t]))\<rparr>)"
  by (simp add: addPendingSave_def getPendingSaves_queue)

lemma saveWorkoutData_A_unfold:
  "saveWorkoutData_A s d e =
     (case (case parseItem (cache_item s) of
              Inl err \<Rightarrow> Inl err
            | Inr None \<Rightarrow> Inr (Some JNull)
            | Inr (Some parsed) \<Rightarrow> get_prop parsed (js ''sha'')) of
        Inl err \<Rightarrow> (Inl err, s)
      | Inr currentSha \<Rightarrow>
          (if truthy (loadToken_A s) then
             (case fetchAndCommit (js ''Update workout data - '')
                     (s\<lparr>cache_item := Holds (cacheEntry d currentSha (now_sync e)),
                        authToken := loadToken_A s\<rparr>) d e of
                (Inr result, s2) \<Rightarrow>
                  (Inr \<lparr>success = True, error = None\<rparr>,
                   s2\<lparr>cache_item := Holds (cacheEntry d (new_sha result) (now_sync e)),
                      pending_item := Absent\<rparr>)
              | (Inl err, s2) \<Rightarrow>
                  (case addPendingSave s2 d (now_queue e) of
                     Inl err' \<Rightarrow> (Inl err', s2)
                   | Inr s3 \<Rightarrow> (Inr \<lparr>success = True, error = Some (SyncFailed err)\<rparr>, s3)))
           else
             (case addPendingSave (s\<lparr>cache_item := Holds (cacheEntry d currentSha (now_sync e))\<rparr>)
                     d (now_queue e) of
                Inl err \<Rightarrow> (Inl err, s\<lparr>cache_item := Holds (cacheEntry d currentSha (now_sync e))\<rparr>)
              | Inr s2 \<Rightarrow> (Inr \<lparr>success = True, error = Some NoTokenQueued\<rparr>, s2))))"
  by (cases "token_item s")
     (simp_all add: saveWorkoutData_A_def Let_def loadToken_A_def setToken_def clearPendingSaves_def
        split: sum.splits prod.splits)


lemma readable_sha:
  "readable c \<Longrightarrow>
     \<exists>sha. (case parseItem c of
              Inl err \<Rightarrow> Inl err
            | Inr None \<Rightarrow> Inr (Some JNull)
            | Inr (Some parsed) \<Rightarrow> get_prop parsed (js ''sha'')) = Inr sha"
  by (cases c) (auto simp: readable_def parseItem_def dest: get_prop_not_null)

lemma saveWorkoutData_A_pending:
  "pending_item (snd (saveWorkoutData_A s d e)) =
     (case fst (saveWorkoutData_A s d e) of
        Inl err \<Rightarrow> pending_item s
      | Inr r \<Rightarrow>
          if error r = None then Absent
          else Holds (sliceLast 5 (queueOf s @ [pendingEntry d (now_queue e)])))"
proof (cases "case parseItem (cache_item s) of
              Inl err \<Rightarrow> Inl err
            | Inr None \<Rightarrow> Inr (Some JNull)
            | Inr (Some parsed) \<Rightarrow> get_prop parsed (js ''sha'')")
  case (Inl err)
  then show ?thesis by (simp add: saveWorkoutData_A_unfold)
next
  case (Inr sha)
  show ?thesis
  proof (cases "truthy (loadToken_A s)")
    case False
    let ?s1 = "s\<lparr>cache_item := Holds (cacheEntry d sha (now_sync e))\<rparr>"
    show ?thesis
    proof (cases "addPendingSave ?s1 d (now_queue e)")
      case (Inl err)
      then show ?thesis using Inr False by (simp add: saveWorkoutData_A_unfold)
    next
      case q: (Inr s2)
      have "queueOf ?s1 = queueOf s" by (simp add: queueOf_def)
      then show ?thesis
        using Inr False q addPendingSave_queue [OF q] by (simp add: saveWorkoutData_A_unfold)
    qed
  next
    case True
    let ?s1 = "s\<lparr>cache_item := Holds (cacheEntry d sha (now_sync e)), authToken := loadToken_A s\<rparr>"
    obtain fr s2 where fc: "fetchAndCommit (js ''Update workout data - '') ?s1 d e = (fr, s2)"
      by (cases "fetchAndCommit (js ''Update workout data - '') ?s1 d e")
    have frame: "pending_item s2 = pending_item s"
      using fetchAndCommit_frameD [OF fc] by simp
    show ?thesis
    proof (cases fr)
      case (Inr res)
      then show ?thesis using \<open>_ = Inr sha\<close> True fc by (simp add: saveWorkoutData_A_unfold)
    next
      case failed: (Inl err)
      show ?thesis
      proof (cases "addPendingSave s2 d (now_queue e)")
        case (Inl err')
        then show ?thesis
          using Inr True fc failed frame by (simp add: saveWorkoutData_A_unfold)
      next
        case q: (Inr s3)
        have "queueOf s2 = queueOf s" using frame by (simp add: queueOf_def)
        then show ?thesis
          using Inr True fc failed q addPendingSave_queue [OF q]
          by (simp add: saveWorkoutData_A_unfold)
      qed
    qed
  qed
qed

lemma saveWorkoutData_A_result:
  assumes "readable (cache_item s)" and "loadToken_A s = Some token" and "token \<noteq> []"
    and "pending_item s \<noteq> Corrupt"
  shows "fst (saveWorkoutData_A s d e) =
     (case getFile_result (Some token) (get_response e) of
        Inl err \<Rightarrow> Inr \<lparr>success = True, error = Some (SyncFailed err)\<rparr>
      | Inr remote \<Rightarrow>
          (case commitFile_result (Some token) (JSON_stringify e d) (put_response e) of
             Inl err \<Rightarrow> Inr \<lparr>success = True, error = Some (SyncFailed err)\<rparr>
           | Inr result \<Rightarrow> Inr \<lparr>success = True, error = None\<rparr>))"
proof -
  obtain sha where sha: "(case parseItem (cache_item s) of
              Inl err \<Rightarrow> Inl err
            | Inr None \<Rightarrow> Inr (Some JNull)
            | Inr (Some parsed) \<Rightarrow> get_prop parsed (js ''sha'')) = Inr sha"
    using readable_sha [OF assms(1)] by blast
  let ?s1 = "s\<lparr>cache_item := Holds (cacheEntry d sha (now_sync e)), authToken := loadToken_A s\<rparr>"
  obtain fr s2 where fc: "fetchAndCommit (js ''Update workout data - '') ?s1 d e = (fr, s2)"
    by (cases "fetchAndCommit (js ''Update workout data - '') ?s1 d e")
  have "pending_item s2 \<noteq> Corrupt"
    using fetchAndCommit_frameD [OF fc] assms(4) by simp
  then have queued: "\<exists>s3. addPendingSave s2 d (now_queue e) = Inr s3"
    by (simp add: addPendingSave_total)
  have "fr = fst (fetchAndCommit (js ''Update workout data - '') ?s1 d e)"
    using fc by simp
  then have fr: "fr = (case getFile_result (Some token) (get_response e) of
        Inl err \<Rightarrow> Inl err
      | Inr remote \<Rightarrow> commitFile_result (Some token) (JSON_stringify e d) (put_response e))"
    using assms(2) by (simp add: fetchAndCommit_fst split: sum.splits)
  show ?thesis
    using sha assms(2,3) fc fr queued
    by (auto simp: saveWorkoutData_A_unfold split: sum.splits)
qed

lemma sliceLast_length: "length (sliceLast n xs) \<le> n"
  by (simp add: sliceLast_def)

lemma sliceLast_sliceLast_append:
  "sliceLast n (sliceLast n xs @ ys) = sliceLast n (xs @ ys)"
proof (cases "n \<le> length xs")
  case True
  then show ?thesis by (cases "length ys \<le> n") (simp_all add: sliceLast_def add.commute)
next
  case False
  then show ?thesis by (simp add: sliceLast_def)
qed

lemma retryPendingSaves_unfold:
  assumes "getPendingSaves s = Inr q" and "q \<noteq> []" and "truthy (loadToken_A s)"
  shows "retryPendingSaves s e =
     (case fst (saveWorkoutData_A s (last q) e) of
        Inl err \<Rightarrow> (Inl err, snd (saveWorkoutData_A s (last q) e))
      | Inr result \<Rightarrow>
          if success result \<and> error result = None
          then (Inr \<lparr>retry_success = True, synced = 1\<rparr>,
                clearPendingSaves (snd (saveWorkoutData_A s (last q) e)))
          else (Inr \<lparr>retry_success = False, synced = 0\<rparr>, snd (saveWorkoutData_A s (last q) e)))"
  using assms
  by (cases "saveWorkoutData_A s (last q) e")
     (simp add: retryPendingSaves_def Let_def split: sum.splits)

lemma saveWorkoutData_A_synced:
  assumes "readable (cache_item s)" and "loadToken_A s = Some token" and "token \<noteq> []"
    and "getFile_result (Some token) (get_response e) = Inr remote"
    and "commitFile_result (Some token) (JSON_stringify e d) (put_response e) = Inr result"
  shows "fst (saveWorkoutData_A s d e) = Inr \<lparr>success = True, error = None\<rparr>"
proof -
  obtain sha where sha: "(case parseItem (cache_item s) of
              Inl err \<Rightarrow> Inl err
            | Inr None \<Rightarrow> Inr (Some JNull)
            | Inr (Some parsed) \<Rightarrow> get_prop parsed (js ''sha'')) = Inr sha"
    using readable_sha [OF assms(1)] by blast
  let ?s1 = "s\<lparr>cache_item := Holds (cacheEntry d sha (now_sync e)), authToken := loadToken_A s\<rparr>"
  have "fst (fetchAndCommit (js ''Update workout data - '') ?s1 d e) = Inr result"
    using assms(2,4,5) by (simp add: fetchAndCommit_fst)
  then show ?thesis
    using sha assms(2,3)
    by (cases "fetchAndCommit (js ''Update workout data - '') ?s1 d e")
       (simp add: saveWorkoutData_A_unfold)
qed

lemma clearPendingSaves_queue: "getPendingSaves (clearPendingSaves s) = Inr []"
  by (simp add: getPendingSaves_def clearPendingSaves_def parseItem_def)

lemma retryPendingSaves_success_queue:
  assumes "fst (retryPendingSaves s e) = Inr rr" and "retry_success rr"
  shows "getPendingSaves (snd (retryPendingSaves s e)) = Inr []"
proof (cases "getPendingSaves s")
  case (Inl err)
  then show ?thesis using assms by (simp add: retryPendingSaves_def)
next
  case (Inr q)
  show ?thesis
  proof (cases "q = []")
    case True
    then show ?thesis using Inr by (simp add: retryPendingSaves_def)
  next
    case False
    show ?thesis
    proof (cases "truthy (loadToken_A s)")
      case True
      show ?thesis
        using assms
        by (auto simp: retryPendingSaves_unfold [OF Inr False True] clearPendingSaves_queue
            split: sum.splits if_splits)
    next
      case noToken: False
      then show ?thesis using assms Inr False by (auto simp: retryPendingSaves_def)
    qed
  qed
qed

lemma initWorkoutData_A_pending:
  "pending_item (snd (initWorkoutData_A s e)) = pending_item s"
  by (auto simp: initWorkoutData_A_def cacheFallback_def getFile_def setToken_def
      split: option.splits sum.splits prod.splits)

lemma queueOf_save_bound:
  "length (queueOf s) \<le> 5 \<Longrightarrow> length (queueOf (snd (saveWorkoutData_A s d e))) \<le> 5"
  by (cases "fst (saveWorkoutData_A s d e)")
     (simp_all add: queueOf_def saveWorkoutData_A_pending sliceLast_length)

lemma queueOf_retry_bound:
  assumes "length (queueOf s) \<le> 5"
  shows "length (queueOf (snd (retryPendingSaves s e))) \<le> 5"
proof (cases "getPendingSaves s")
  case (Inl err)
  then show ?thesis using assms by (simp add: retryPendingSaves_def)
next
  case (Inr q)
  show ?thesis
  proof (cases "q \<noteq> [] \<and> truthy (loadToken_A s)")
    case False
    then show ?thesis using assms Inr by (auto simp: retryPendingSaves_def)
  next
    case True
    then have u: "retryPendingSaves s e =
     (case fst (saveWorkoutData_A s (last q) e) of
        Inl err \<Rightarrow> (Inl err, snd (saveWorkoutData_A s (last q) e))
      | Inr result \<Rightarrow>
          if success result \<and> error result = None
          then (Inr \<lparr>retry_success = True, synced = 1\<rparr>,
                clearPendingSaves (snd (saveWorkoutData_A s (last q) e)))
          else (Inr \<lparr>retry_success = False, synced = 0\<rparr>, snd (saveWorkoutData_A s (last q) e)))"
      using Inr retryPendingSaves_unfold by blast
    show ?thesis
      using queueOf_save_bound [OF assms, of "last q" e]
      by (cases "fst (saveWorkoutData_A s (last q) e)")
         (auto simp: u queueOf_def clearPendingSaves_def)
  qed
qed

lemma runSaves_A_queue:
  "pending_item s \<noteq> Corrupt \<Longrightarrow> length (queueOf s) \<le> 5 \<Longrightarrow>
   list_all reportsFailure (fst (runSaves_A s des)) \<Longrightarrow>
     pending_item (snd (runSaves_A s des)) \<noteq> Corrupt \<and>
     queueOf (snd (runSaves_A s des)) =
       sliceLast 5 (queueOf s @ map (\<lambda>(d, e). pendingEntry d (now_queue e)) des)"
proof (induction des arbitrary: s)
  case Nil
  then show ?case by (simp add: sliceLast_def)
next
  case (Cons de des)
  obtain d e where de: "de = (d, e)" by (cases de)
  obtain r s1 where sv: "saveWorkoutData_A s d e = (r, s1)" by (cases "saveWorkoutData_A s d e")
  obtain rs s2 where rn: "runSaves_A s1 des = (rs, s2)" by (cases "runSaves_A s1 des")
  have failed: "reportsFailure r" and rest: "list_all reportsFailure (fst (runSaves_A s1 des))"
    using Cons.prems(3) de sv rn by simp_all
  then obtain res where res: "r = Inr res" "error res \<noteq> None"
    by (cases r) (auto simp: reportsFailure_def)
  have p1: "pending_item s1 = Holds (sliceLast 5 (queueOf s @ [pendingEntry d (now_queue e)]))"
    using saveWorkoutData_A_pending [of s d e] sv res by simp
  then have q1: "queueOf s1 = sliceLast 5 (queueOf s @ [pendingEntry d (now_queue e)])"
    by (simp add: queueOf_def)
  have "pending_item s1 \<noteq> Corrupt" and "length (queueOf s1) \<le> 5"
    using p1 q1 by (simp_all add: sliceLast_length)
  then have "pending_item (snd (runSaves_A s1 des)) \<noteq> Corrupt \<and>
     queueOf (snd (runSaves_A s1 des)) =
       sliceLast 5 (queueOf s1 @ map (\<lambda>(d, e). pendingEntry d (now_queue e)) des)"
    using Cons.IH rest by blast
  then show ?case
    using de sv rn q1 by (simp add: sliceLast_sliceLast_append)
qed

lemma loadToken_B_nonempty: "loadToken_B s = Some t \<Longrightarrow> t \<noteq> []"
  by (auto simp: loadToken_B_def Let_def split: if_splits list.splits)

lemma loadToken_B_cache [simp]: "loadToken_B (s\<lparr>cache_item := c\<rparr>) = loadToken_B s"
  by (simp add: loadToken_B_def)

lemma saveWorkoutData_B_result:
  assumes "loadToken_B s = Some token"
  shows "fst (saveWorkoutData_B s d e) =
     (case getFile_result (Some token) (get_response e) of
        Inl err \<Rightarrow> Inr \<lparr>success = False, error = Some (SaveFailed err)\<rparr>
      | Inr remote \<Rightarrow>
          (case commitFile_result (Some token) (JSON_stringify e d) (put_response e) of
             Inl err \<Rightarrow> Inr \<lparr>success = False, error = Some (SaveFailed err)\<rparr>
           | Inr result \<Rightarrow> Inr \<lparr>success = True, error = None\<rparr>))"
proof -
  let ?s1 = "setToken token (s\<lparr>cache_item := Holds (cacheEntry d None (now_sync e))\<rparr>)"
  obtain fr s2 where fc: "fetchAndCommit (js ''Workout '') ?s1 d e = (fr, s2)"
    by (cases "fetchAndCommit (js ''Workout '') ?s1 d e")
  have "fr = fst (fetchAndCommit (js ''Workout '') ?s1 d e)"
    using fc by simp
  then have fr: "fr = (case getFile_result (Some token) (get_response e) of
        Inl err \<Rightarrow> Inl err
      | Inr remote \<Rightarrow> commitFile_result (Some token) (JSON_stringify e d) (put_response e))"
    by (simp add: fetchAndCommit_fst setToken_def split: sum.splits)
  show ?thesis
    using assms loadToken_B_nonempty [OF assms] fc fr
    by (auto simp: saveWorkoutData_B_def Let_def split: sum.splits)
qed

lemma commitFile_rejected:
  "truthy token \<Longrightarrow> r = Response st b \<Longrightarrow> \<not> ok st \<Longrightarrow>
     \<exists>err. commitFile_result token content r = Inl err"
  by (simp add: commitFile_result_def split: sum.splits)

lemma cacheFallback_snd: "snd (cacheFallback s) = s"
  by (auto simp: cacheFallback_def split: sum.splits option.splits)

lemma initWorkoutData_A_calls:
  "\<exists>cs. calls (snd (initWorkoutData_A s e)) = calls s @ cs
     \<and> list_all (\<lambda>c. truthy (callToken c)) cs"
proof (cases "truthy (loadToken_A s)")
  case False
  then have "snd (initWorkoutData_A s e) = s"
    by (simp add: initWorkoutData_A_no_token cacheFallback_snd)
  then show ?thesis by simp
next
  case True
  then obtain token where t: "loadToken_A s = Some token" "token \<noteq> []"
    by (cases "loadToken_A s") auto
  have "calls (snd (initWorkoutData_A s e)) = calls s @ [GetFileCall (Some token)]"
    using t
    by (auto simp: initWorkoutData_A_def getFile_def setToken_def
        cacheFallback_snd [unfolded snd_def] cacheFallback_def
        split: sum.splits option.splits prod.splits)
  then show ?thesis using t by (simp add: callToken_def)
qed


lemma list_all_callToken:
  "list_all (\<lambda>c. callToken c = t) cs \<Longrightarrow> truthy t \<Longrightarrow> list_all (\<lambda>c. truthy (callToken c)) cs"
  by (induction cs) simp_all

lemma saveWorkoutData_A_calls:
  "\<exists>cs. calls (snd (saveWorkoutData_A s d e)) = calls s @ cs
     \<and> list_all (\<lambda>c. truthy (callToken c)) cs"
proof (cases "case parseItem (cache_item s) of
              Inl err \<Rightarrow> Inl err
            | Inr None \<Rightarrow> Inr (Some JNull)
            | Inr (Some parsed) \<Rightarrow> get_prop parsed (js ''sha'')")
  case (Inl err)
  then show ?thesis by (simp add: saveWorkoutData_A_unfold)
next
  case (Inr sha)
  show ?thesis
  proof (cases "truthy (loadToken_A s)")
    case False
    let ?s1 = "s\<lparr>cache_item := Holds (cacheEntry d sha (now_sync e))\<rparr>"
    have "calls (snd (saveWorkoutData_A s d e)) = calls s"
    proof (cases "addPendingSave ?s1 d (now_queue e)")
      case (Inl err)
      then show ?thesis using Inr False by (simp add: saveWorkoutData_A_unfold)
    next
      case q: (Inr s2)
      then show ?thesis
        using Inr False addPendingSave_queue [OF q] by (simp add: saveWorkoutData_A_unfold)
    qed
    then show ?thesis by simp
  next
    case True
    let ?s1 = "s\<lparr>cache_item := Holds (cacheEntry d sha (now_sync e)), authToken := loadToken_A s\<rparr>"
    obtain fr s2 where fc: "fetchAndCommit (js ''Update workout data - '') ?s1 d e = (fr, s2)"
      by (cases "fetchAndCommit (js ''Update workout data - '') ?s1 d e")
    obtain cs where cs: "calls s2 = calls s @ cs" "list_all (\<lambda>c. callToken c = loadToken_A s) cs"
      using fetchAndCommit_calls [of "js ''Update workout data - ''" ?s1 d e] fc by auto
    have "calls (snd (saveWorkoutData_A s d e)) = calls s2"
    proof (cases fr)
      case (Inr res)
      then show ?thesis using \<open>_ = Inr sha\<close> True fc by (simp add: saveWorkoutData_A_unfold)
    next
      case failed: (Inl err)
      show ?thesis
      proof (cases "addPendingSave s2 d (now_queue e)")
        case (Inl err')
        then show ?thesis
          using Inr True fc failed by (simp add: saveWorkoutData_A_unfold)
      next
        case q: (Inr s3)
        then show ?thesis
          using Inr True fc failed addPendingSave_queue [OF q]
          by (simp add: saveWorkoutData_A_unfold)
      qed
    qed
    then show ?thesis
      using cs list_all_callToken [OF cs(2) True] by simp
  qed
qed

lemma saveWorkoutData_B_calls:
  "\<exists>cs. calls (snd (saveWorkoutData_B s d e)) = calls s @ cs
     \<and> list_all (\<lambda>c. truthy (callToken c)) cs"
proof (cases "loadToken_B s")
  case None
  then show ?thesis by (simp add: saveWorkoutData_B_def Let_def)
next
  case (Some token)
  let ?s1 = "setToken token (s\<lparr>cache_item := Holds (cacheEntry d None (now_sync e))\<rparr>)"
  have t: "truthy (Some token)" using loadToken_B_nonempty [OF Some] by simp
  obtain fr s2 where fc: "fetchAndCommit (js ''Workout '') ?s1 d e = (fr, s2)"
    by (cases "fetchAndCommit (js ''Workout '') ?s1 d e")
  obtain cs where cs: "calls s2 = calls s @ cs" "list_all (\<lambda>c. callToken c = Some token) cs"
    using fetchAndCommit_calls [of "js ''Workout ''" ?s1 d e] fc by (auto simp: setToken_def)
  have "calls (snd (saveWorkoutData_B s d e)) = calls s2"
    using Some loadToken_B_nonempty [OF Some] fc
    by (cases fr) (simp_all add: saveWorkoutData_B_def Let_def)
  then show ?thesis using cs list_all_callToken [OF cs(2) t] by simp
qed

lemma initWorkoutData_B_calls: "calls (snd (initWorkoutData_B s e)) = calls s"
  by (auto simp: initWorkoutData_B_def cacheFallback_def
      split: fetched.splits body.splits sum.splits option.splits)

lemma retryPendingSaves_calls:
  "\<exists>cs. calls (snd (retryPendingSaves s e)) = calls s @ cs
     \<and> list_all (\<lambda>c. truthy (callToken c)) cs"
proof (cases "getPendingSaves s")
  case (Inl err)
  then show ?thesis by (simp add: retryPendingSaves_def)
next
  case (Inr q)
  show ?thesis
  proof (cases "q \<noteq> [] \<and> truthy (loadToken_A s)")
    case False
    then have "snd (retryPendingSaves s e) = s"
      using Inr by (auto simp: retryPendingSaves_def)
    then show ?thesis by simp
  next
    case True
    then have u: "retryPendingSaves s e =
     (case fst (saveWorkoutData_A s (last q) e) of
        Inl err \<Rightarrow> (Inl err, snd (saveWorkoutData_A s (last q) e))
      | Inr result \<Rightarrow>
          if success result \<and> error result = None
          then (Inr \<lparr>retry_success = True, synced = 1\<rparr>,
                clearPendingSaves (snd (saveWorkoutData_A s (last q) e)))
          else (Inr \<lparr>retry_success = False, synced = 0\<rparr>, snd (saveWorkoutData_A s (last q) e)))"
      using Inr retryPendingSaves_unfold by blast
    have "calls (snd (retryPendingSaves s e)) = calls (snd (saveWorkoutData_A s (last q) e))"
      by (cases "fst (saveWorkoutData_A s (last q) e)") (auto simp: u clearPendingSaves_def)
    then show ?thesis using saveWorkoutData_A_calls [of s "last q" e] by simp
  qed
qed

lemma get_prop_error: "get_prop v k = Inl err \<Longrightarrow> err = TypeError"
  by (cases v) simp_all

lemma apiFailure_not_token: "apiFailure b \<noteq> TokenNotSet"
  by (auto simp: apiFailure_def split: body.splits sum.splits dest: get_prop_error)

lemma encodeURIComponent_error: "encodeURIComponent s = Inl err \<Longrightarrow> err = URIError"
  by (induction s arbitrary: err rule: encodeURIComponent.induct)
     (auto split: if_splits sum.splits list.splits)

lemma getFile_result_not_token: "truthy t \<Longrightarrow> getFile_result t r \<noteq> Inl TokenNotSet"
  using apiFailure_not_token
  by (auto simp: getFile_result_def getFile_decode_def atob_def Let_def
      split: fetched.splits body.splits sum.splits option.splits json.splits if_splits
      dest: get_prop_error)

lemma commitFile_result_not_token: "truthy t \<Longrightarrow> commitFile_result t c r \<noteq> Inl TokenNotSet"
  using apiFailure_not_token
  by (auto simp: commitFile_result_def commitFile_encode_def btoa_def
      split: fetched.splits body.splits sum.splits option.splits if_splits
      dest: get_prop_error encodeURIComponent_error)


lemma fetchAndCommit_token_error:
  "fetchAndCommit p s d e = (Inl TokenNotSet, s') \<Longrightarrow> \<not> truthy (authToken s)"
proof
  assume a: "fetchAndCommit p s d e = (Inl TokenNotSet, s')" and t: "truthy (authToken s)"
  have "fst (fetchAndCommit p s d e) \<noteq> Inl TokenNotSet"
    using getFile_result_not_token [OF t, of "get_response e"]
      commitFile_result_not_token [OF t, of "JSON_stringify e d" "put_response e"]
    by (auto simp: fetchAndCommit_fst split: sum.splits)
  then show False using a by simp
qed

lemma saveWorkoutData_A_no_token_error:
  "fst (saveWorkoutData_A s d e) \<noteq> Inr \<lparr>success = True, error = Some (SyncFailed TokenNotSet)\<rparr>"
  by (auto simp: saveWorkoutData_A_unfold split: sum.splits prod.splits if_splits
      dest!: fetchAndCommit_token_error)

lemma saveWorkoutData_B_no_token_error:
  "fst (saveWorkoutData_B s d e) \<noteq> Inr \<lparr>success = False, error = Some (SaveFailed TokenNotSet)\<rparr>"
  by (auto simp: saveWorkoutData_B_def Let_def setToken_def
      split: sum.splits prod.splits if_splits option.splits
      dest!: fetchAndCommit_token_error)

lemma saveWorkoutData_A_returns:
  assumes "readable (cache_item s)" and "pending_item s \<noteq> Corrupt"
  shows "\<exists>r. fst (saveWorkoutData_A s d e) = Inr r"
proof (cases "truthy (loadToken_A s)")
  case True
  then obtain token where t: "loadToken_A s = Some token" "token \<noteq> []"
    by (cases "loadToken_A s") auto
  show ?thesis
    by (simp add: saveWorkoutData_A_result [OF assms(1) t assms(2)] split: sum.splits)
next
  case False
  obtain sha where sha: "(case parseItem (cache_item s) of
              Inl err \<Rightarrow> Inl err
            | Inr None \<Rightarrow> Inr (Some JNull)
            | Inr (Some parsed) \<Rightarrow> get_prop parsed (js ''sha'')) = Inr sha"
    using readable_sha [OF assms(1)] by blast
  show ?thesis
    using sha False assms(2)
    by (simp add: saveWorkoutData_A_unfold addPendingSave_total)
qed

lemma saveWorkoutData_A_writes:
  assumes "readable (cache_item s)"
  shows "\<exists>sha. cache_item (snd (saveWorkoutData_A s d e)) = Holds (cacheEntry d sha (now_sync e))"
proof -
  obtain sha where sha: "(case parseItem (cache_item s) of
              Inl err \<Rightarrow> Inl err
            | Inr None \<Rightarrow> Inr (Some JNull)
            | Inr (Some parsed) \<Rightarrow> get_prop parsed (js ''sha'')) = Inr sha"
    using readable_sha [OF assms] by blast
  show ?thesis
  proof (cases "truthy (loadToken_A s)")
    case False
    let ?s1 = "s\<lparr>cache_item := Holds (cacheEntry d sha (now_sync e))\<rparr>"
    show ?thesis
    proof (cases "addPendingSave ?s1 d (now_queue e)")
      case (Inl err)
      then show ?thesis using sha False by (auto simp: saveWorkoutData_A_unfold)
    next
      case q: (Inr s2)
      then show ?thesis
        using sha False addPendingSave_queue [OF q] by (auto simp: saveWorkoutData_A_unfold)
    qed
  next
    case True
    let ?s1 = "s\<lparr>cache_item := Holds (cacheEntry d sha (now_sync e)), authToken := loadToken_A s\<rparr>"
    obtain fr s2 where fc: "fetchAndCommit (js ''Update workout data - '') ?s1 d e = (fr, s2)"
      by (cases "fetchAndCommit (js ''Update workout data - '') ?s1 d e")
    have frame: "cache_item s2 = Holds (cacheEntry d sha (now_sync e))"
      using fetchAndCommit_frameD [OF fc] by simp
    show ?thesis
    proof (cases fr)
      case (Inr res)
      then show ?thesis using sha True fc by (auto simp: saveWorkoutData_A_unfold)
    next
      case failed: (Inl err)
      show ?thesis
      proof (cases "addPendingSave s2 d (now_queue e)")
        case (Inl err')
        then show ?thesis
          using sha True fc failed frame by (auto simp: saveWorkoutData_A_unfold)
      next
        case q: (Inr s3)
        then show ?thesis
          using sha True fc failed frame addPendingSave_queue [OF q]
          by (auto simp: saveWorkoutData_A_unfold)
      qed
    qed
  qed
qed

section \<open>The properties\<close>

text \<open>
  C1, local-first durability. In mode A, on a local store that parses (the cache item is
  readable, the pending item is not corrupt), \<open>saveWorkoutData d\<close> returns a result,
  whatever the credential and whatever the network answered; on a readable cache item it
  leaves \<open>d\<close> in the cache even where it throws afterwards; and whenever it has returned,
  an \<open>initWorkoutData\<close> that runs later on the cache that the save left, with no
  credential, returns exactly \<open>d\<close>. In mode B \<open>saveWorkoutData d\<close> always returns and
  leaves \<open>d\<close> in the cache, and an \<open>initWorkoutData\<close> whose public read fails returns
  exactly \<open>d\<close> from the cache that the save left.
\<close>

theorem save_then_init_returns_document:
  "(readable (cache_item s) \<longrightarrow> pending_item s \<noteq> Corrupt \<longrightarrow>
      (\<exists>r. fst (saveWorkoutData_A s d e) = Inr r))
   \<and> (readable (cache_item s) \<longrightarrow>
      (\<exists>sha. cache_item (snd (saveWorkoutData_A s d e)) = Holds (cacheEntry d sha (now_sync e))))
   \<and> (fst (saveWorkoutData_A s d e) = Inr r \<longrightarrow>
      cache_item s' = cache_item (snd (saveWorkoutData_A s d e)) \<longrightarrow>
      \<not> truthy (loadToken_A s') \<longrightarrow>
      fst (initWorkoutData_A s' e') = Inr (Some d))
   \<and> (\<exists>r. fst (saveWorkoutData_B s d e) = Inr r)
   \<and> cache_item (snd (saveWorkoutData_B s d e)) = Holds (cacheEntry d None (now_sync e))
   \<and> (cache_item s' = cache_item (snd (saveWorkoutData_B s d e)) \<longrightarrow>
      publicReadFails e' \<longrightarrow>
      fst (initWorkoutData_B s' e') = Inr (Some d))"
proof (intro conjI impI)
  assume "readable (cache_item s)" and "pending_item s \<noteq> Corrupt"
  then show "\<exists>r. fst (saveWorkoutData_A s d e) = Inr r"
    by (rule saveWorkoutData_A_returns)
next
  assume "readable (cache_item s)"
  then show "\<exists>sha. cache_item (snd (saveWorkoutData_A s d e)) =
      Holds (cacheEntry d sha (now_sync e))"
    by (rule saveWorkoutData_A_writes)
next
  assume "fst (saveWorkoutData_A s d e) = Inr r"
    and "cache_item s' = cache_item (snd (saveWorkoutData_A s d e))"
    and noToken: "\<not> truthy (loadToken_A s')"
  then obtain sha where "cache_item s' = Holds (cacheEntry d sha (now_sync e))"
    using saveWorkoutData_A_cache by metis
  then show "fst (initWorkoutData_A s' e') = Inr (Some d)"
    using noToken by (simp add: initWorkoutData_A_no_token cacheFallback_cached)
next
  show "\<exists>r. fst (saveWorkoutData_B s d e) = Inr r"
    by (rule saveWorkoutData_B_returns)
next
  show "cache_item (snd (saveWorkoutData_B s d e)) = Holds (cacheEntry d None (now_sync e))"
    by (rule saveWorkoutData_B_cache)
next
  assume "cache_item s' = cache_item (snd (saveWorkoutData_B s d e))"
    and "publicReadFails e'"
  then show "fst (initWorkoutData_B s' e') = Inr (Some d)"
    by (simp add: initWorkoutData_B_fails saveWorkoutData_B_cache cacheFallback_cached)
qed

theorem save_then_init_returns_document_witness:
  "readable (cache_item signedIn) \<and> pending_item signedIn \<noteq> Corrupt
   \<and> truthy (loadToken_A signedIn)
   \<and> fst (saveWorkoutData_A signedIn (sampleDoc 2) rejecting)
     = Inr \<lparr>success = True, error = Some (SyncFailed ApiError)\<rparr>
   \<and> \<not> truthy (loadToken_A
          ((snd (saveWorkoutData_A signedIn (sampleDoc 2) rejecting))\<lparr>token_item := None\<rparr>))
   \<and> fst (initWorkoutData_A
          ((snd (saveWorkoutData_A signedIn (sampleDoc 2) rejecting))\<lparr>token_item := None\<rparr>)
          offline)
     = Inr (Some (sampleDoc 2))
   \<and> fst (saveWorkoutData_A freshBrowser (sampleDoc 2) offline)
     = Inr \<lparr>success = True, error = Some NoTokenQueued\<rparr>
   \<and> fst (initWorkoutData_A (snd (saveWorkoutData_A freshBrowser (sampleDoc 2) offline)) offline)
     = Inr (Some (sampleDoc 2))
   \<and> publicReadFails offline
   \<and> fst (saveWorkoutData_B signedIn (sampleDoc 2) rejecting)
     = Inr \<lparr>success = False, error = Some (SaveFailed ApiError)\<rparr>
   \<and> fst (initWorkoutData_B (snd (saveWorkoutData_B signedIn (sampleDoc 2) rejecting)) offline)
     = Inr (Some (sampleDoc 2))"
proof -
  have a: "fst (saveWorkoutData_A signedIn (sampleDoc 2) rejecting)
     = Inr \<lparr>success = True, error = Some (SyncFailed ApiError)\<rparr>"
    by (simp add: sample_defs coordinator_defs client_defs codec_defs)
  have b: "fst (saveWorkoutData_B signedIn (sampleDoc 2) rejecting)
     = Inr \<lparr>success = False, error = Some (SaveFailed ApiError)\<rparr>"
    by (simp add: sample_defs coordinator_defs client_defs codec_defs loadToken_B_def)
  have f: "fst (saveWorkoutData_A freshBrowser (sampleDoc 2) offline)
     = Inr \<lparr>success = True, error = Some NoTokenQueued\<rparr>"
    by (simp add: sample_defs coordinator_defs)
  have h: "readable (cache_item signedIn)" "pending_item signedIn \<noteq> Corrupt"
    "truthy (loadToken_A signedIn)" "publicReadFails offline"
    "\<not> truthy (loadToken_A (snd (saveWorkoutData_A freshBrowser (sampleDoc 2) offline)))"
    by (simp_all add: sample_defs readable_def loadToken_A_def publicReadFails_def js_def
        saveWorkoutData_A_unfold parseItem_def addPendingSave_def getPendingSaves_def)
  show ?thesis
    using save_then_init_returns_document [of signedIn "sampleDoc 2" rejecting
        "\<lparr>success = True, error = Some (SyncFailed ApiError)\<rparr>"
        "(snd (saveWorkoutData_A signedIn (sampleDoc 2) rejecting))\<lparr>token_item := None\<rparr>" offline]
      save_then_init_returns_document [of freshBrowser "sampleDoc 2" offline
        "\<lparr>success = True, error = Some NoTokenQueued\<rparr>"
        "snd (saveWorkoutData_A freshBrowser (sampleDoc 2) offline)" offline]
      save_then_init_returns_document [of signedIn "sampleDoc 2" rejecting
        "\<lparr>success = False, error = Some (SaveFailed ApiError)\<rparr>"
        "snd (saveWorkoutData_B signedIn (sampleDoc 2) rejecting)" offline]
      a b f h
    by (simp add: loadToken_A_def)
qed

text \<open>
  C2, as the code has it. initWorkoutData throws on a cache item that does not parse:
  the \<^verbatim>\<open>JSON.parse(cached)\<close> of the fallback stands outside the \<^verbatim>\<open>try\<close> block. Here
  the cache item is corrupt, there is no credential and no network.
\<close>

theorem init_throws_on_corrupt_cache:
  "fst (initWorkoutData_A (freshBrowser\<lparr>cache_item := Corrupt\<rparr>) offline) = Inl SyntaxError"
  by (simp add: sample_defs coordinator_defs)

text \<open>
  C2, amended. For every credential and every answer of the network, and every cache item
  that is absent, empty or parses to a value other than \<^verbatim>\<open>null\<close>, initWorkoutData
  returns a value in both variants and throws nothing. When the remote read delivers no
  document (no credential, a network, API or parse error, no file), the result is the
  \<^verbatim>\<open>data\<close> of the cache entry if there is one, and the empty document
  \<^verbatim>\<open>{workoutHistory: [], workoutDurations: {}}\<close> if the cache has nothing.
\<close>

theorem init_total_on_readable_cache:
  assumes "readable (cache_item s)"
  shows "(\<exists>v. fst (initWorkoutData_A s e) = Inr v)
    \<and> (\<exists>v. fst (initWorkoutData_B s e) = Inr v)
    \<and> (remoteDocument_A s e = None \<longrightarrow>
         fst (initWorkoutData_A s e) =
           (case cache_item s of Holds v \<Rightarrow> get_prop v (js ''data'')
            | _ \<Rightarrow> Inr (Some emptyDocument)))
    \<and> (publicReadFails e \<longrightarrow>
         fst (initWorkoutData_B s e) =
           (case cache_item s of Holds v \<Rightarrow> get_prop v (js ''data'')
            | _ \<Rightarrow> Inr (Some emptyDocument)))"
proof -
  have notCorrupt: "cache_item s \<noteq> Corrupt"
    using assms by (simp add: readable_def)
  have fallback: "fst (cacheFallback s') =
      (case cache_item s of Holds v \<Rightarrow> get_prop v (js ''data'') | _ \<Rightarrow> Inr (Some emptyDocument))"
    if "cache_item s' = cache_item s" for s'
    using that notCorrupt by (cases "cache_item s") (simp_all add: cacheFallback_fst)
  obtain w where w: "(case cache_item s of Holds v \<Rightarrow> get_prop v (js ''data'')
      | _ \<Rightarrow> Inr (Some emptyDocument)) = Inr w"
    using readable_fallback [OF assms] notCorrupt by (cases "cache_item s") auto
  have A: "remoteDocument_A s e = None \<longrightarrow>
      fst (initWorkoutData_A s e) =
        (case cache_item s of Holds v \<Rightarrow> get_prop v (js ''data'') | _ \<Rightarrow> Inr (Some emptyDocument))"
    using initWorkoutData_A_fallback [of s e] fallback by auto
  have B: "publicReadFails e \<longrightarrow>
      fst (initWorkoutData_B s e) =
        (case cache_item s of Holds v \<Rightarrow> get_prop v (js ''data'') | _ \<Rightarrow> Inr (Some emptyDocument))"
    using fallback [of s] by (simp add: initWorkoutData_B_fails)
  have "\<exists>v. fst (initWorkoutData_A s e) = Inr v"
  proof (cases "remoteDocument_A s e")
    case None
    then show ?thesis using A w by simp
  next
    case (Some d)
    then show ?thesis by (simp add: initWorkoutData_A_remote)
  qed
  moreover have "\<exists>v. fst (initWorkoutData_B s e) = Inr v"
  proof (cases "publicReadFails e")
    case True
    then show ?thesis using B w by simp
  next
    case False
    then show ?thesis using initWorkoutData_B_ok by blast
  qed
  ultimately show ?thesis using A B by blast
qed

theorem init_total_on_readable_cache_witness:
  "readable (cache_item freshBrowser)
   \<and> remoteDocument_A freshBrowser offline = None
   \<and> publicReadFails offline
   \<and> fst (initWorkoutData_A freshBrowser offline) = Inr (Some emptyDocument)
   \<and> fst (initWorkoutData_B freshBrowser offline) = Inr (Some emptyDocument)"
  using init_total_on_readable_cache [of freshBrowser offline]
  by (simp add: sample_defs readable_def remoteDocument_A_def publicReadFails_def loadToken_A_def)

text \<open>
  C3, as the code has it. A save of \<open>sampleDoc 2\<close> was queued; the token is there now and
  GitHub accepts. retryPendingSaves reports one synced save, but what it passed to
  saveWorkoutData is the queue entry \<^verbatim>\<open>{data, timestamp}\<close>, not the document in its
  \<^verbatim>\<open>data\<close>: the cache now holds the entry as its document, and a later
  initWorkoutData without network returns the entry instead of the document.
\<close>

theorem retry_saves_queue_entry_not_document:
  "getPendingSaves queuedBrowser = Inr [pendingEntry (sampleDoc 2) (js ''T3'')]
   \<and> fst (retryPendingSaves queuedBrowser accepting) = Inr \<lparr>retry_success = True, synced = 1\<rparr>
   \<and> cache_item (snd (retryPendingSaves queuedBrowser accepting)) =
       Holds (cacheEntry (pendingEntry (sampleDoc 2) (js ''T3'')) (Some (JStr (js ''def'')))
                (js ''T1''))
   \<and> fst (initWorkoutData_A
          ((snd (retryPendingSaves queuedBrowser accepting))\<lparr>token_item := None\<rparr>) offline) =
       Inr (Some (pendingEntry (sampleDoc 2) (js ''T3'')))
   \<and> pendingEntry (sampleDoc 2) (js ''T3'') \<noteq> sampleDoc 2"
  by (simp add: sample_defs coordinator_defs client_defs codec_defs)

text \<open>
  C4, as the code has it. The same queue, and GitHub rejects the commit: the retry reports
  \<^verbatim>\<open>{success: false, synced: 0}\<close>, and the queue is not what it was. The save that
  the retry ran has queued what it was given.
\<close>

theorem failed_retry_changes_queue:
  "fst (retryPendingSaves queuedBrowser rejecting) = Inr \<lparr>retry_success = False, synced = 0\<rparr>
   \<and> getPendingSaves queuedBrowser = Inr [pendingEntry (sampleDoc 2) (js ''T3'')]
   \<and> getPendingSaves (snd (retryPendingSaves queuedBrowser rejecting)) =
       Inr [pendingEntry (sampleDoc 2) (js ''T3''),
            pendingEntry (pendingEntry (sampleDoc 2) (js ''T3'')) (js ''T3'')]
   \<and> getPendingSaves (snd (retryPendingSaves queuedBrowser rejecting)) \<noteq>
       getPendingSaves queuedBrowser"
  by (simp add: sample_defs coordinator_defs client_defs codec_defs)

text \<open>
  C9, as the code has it. getSyncStatus throws on a cache item that does not parse, in
  both variants: nothing guards its \<^verbatim>\<open>JSON.parse(cached)\<close>.
\<close>

theorem getSyncStatus_throws_on_corrupt_cache:
  "fst (getSyncStatus_A (freshBrowser\<lparr>cache_item := Corrupt\<rparr>)) = Inl SyntaxError
   \<and> fst (getSyncStatus_B (freshBrowser\<lparr>cache_item := Corrupt\<rparr>)) = Inl SyntaxError"
  by (simp add: sample_defs coordinator_defs)

text \<open>
  C9, amended. getSyncStatus changes nothing, in any state. For every local store whose
  cache item is absent, empty or parses to a value other than \<^verbatim>\<open>null\<close>, and (mode A)
  whose pending item is absent, empty or parses to an array (\<open>pending_item s \<noteq> Corrupt\<close>:
  the model holds no other parse result there), it returns a status and throws nothing:
  the length of the queue and whether it is positive, the \<^verbatim>\<open>lastSync\<close> of the cache
  entry, and (mode B) whether a token is present. Missing data counts as absence: an
  absent or empty pending item is an empty queue, an absent or empty cache item gives
  \<^verbatim>\<open>lastSync: null\<close>.
\<close>

theorem getSyncStatus_total_on_readable_store:
  "snd (getSyncStatus_A s) = s \<and> snd (getSyncStatus_B s) = s
   \<and> (readable (cache_item s) \<longrightarrow> pending_item s \<noteq> Corrupt \<longrightarrow>
        fst (getSyncStatus_A s) =
          Inr \<lparr>hasPending = (0 < length (queueOf s)), pendingCount = length (queueOf s),
               lastSync = (case cache_item s of
                             Holds (JObj kvs) \<Rightarrow> map_of kvs (js ''lastSync'')
                           | Holds _ \<Rightarrow> None
                           | _ \<Rightarrow> Some JNull)\<rparr>)
   \<and> (readable (cache_item s) \<longrightarrow>
        fst (getSyncStatus_B s) =
          Inr \<lparr>hasToken = (loadToken_B s \<noteq> None),
               lastSync_B = (case cache_item s of
                               Holds (JObj kvs) \<Rightarrow> map_of kvs (js ''lastSync'')
                             | Holds _ \<Rightarrow> None
                             | _ \<Rightarrow> Some JNull)\<rparr>)"
proof (intro conjI impI)
  show "snd (getSyncStatus_A s) = s" by (rule getSyncStatus_A_snd)
  show "snd (getSyncStatus_B s) = s" by (rule getSyncStatus_B_snd)
next
  assume r: "readable (cache_item s)" and p: "pending_item s \<noteq> Corrupt"
  show "fst (getSyncStatus_A s) =
          Inr \<lparr>hasPending = (0 < length (queueOf s)), pendingCount = length (queueOf s),
               lastSync = (case cache_item s of
                             Holds (JObj kvs) \<Rightarrow> map_of kvs (js ''lastSync'')
                           | Holds _ \<Rightarrow> None
                           | _ \<Rightarrow> Some JNull)\<rparr>"
    by (simp add: getSyncStatus_A_def getPendingSaves_queue [OF p] readable_lastSync [OF r])
next
  assume r: "readable (cache_item s)"
  show "fst (getSyncStatus_B s) =
          Inr \<lparr>hasToken = (loadToken_B s \<noteq> None),
               lastSync_B = (case cache_item s of
                               Holds (JObj kvs) \<Rightarrow> map_of kvs (js ''lastSync'')
                             | Holds _ \<Rightarrow> None
                             | _ \<Rightarrow> Some JNull)\<rparr>"
    by (simp add: getSyncStatus_B_def readable_lastSync [OF r])
qed

theorem getSyncStatus_total_on_readable_store_witness:
  "readable (cache_item freshBrowser) \<and> pending_item freshBrowser \<noteq> Corrupt
   \<and> getSyncStatus_A freshBrowser =
       (Inr \<lparr>hasPending = False, pendingCount = 0, lastSync = Some JNull\<rparr>, freshBrowser)
   \<and> getSyncStatus_B freshBrowser =
       (Inr \<lparr>hasToken = False, lastSync_B = Some JNull\<rparr>, freshBrowser)"
  using getSyncStatus_total_on_readable_store [of freshBrowser]
  by (simp add: prod_eq_iff freshBrowser_def readable_def queueOf_def loadToken_B_def)

text \<open>
  C4, amended. For every queue that is not empty and every retry that does not reach a
  true remote success: without a credential, retryPendingSaves returns
  \<^verbatim>\<open>{success: false, synced: 0}\<close> and leaves the whole state as it was; with a
  credential, when the save it runs returns a result that is not a success without
  message, it returns \<^verbatim>\<open>{success: false, synced: 0}\<close> and the queue afterwards is the
  queue before with one entry appended by that save, cut to its last five: the earlier
  entries keep their order, and only the oldest can be dropped.
\<close>

theorem failed_retry_requeues:
  assumes "getPendingSaves s = Inr q" and "q \<noteq> []"
  shows "(\<not> truthy (loadToken_A s) \<longrightarrow>
            retryPendingSaves s e = (Inr \<lparr>retry_success = False, synced = 0\<rparr>, s))
     \<and> (truthy (loadToken_A s) \<longrightarrow>
          fst (saveWorkoutData_A s (last q) e) = Inr r \<longrightarrow>
          \<not> (success r \<and> error r = None) \<longrightarrow>
            fst (retryPendingSaves s e) = Inr \<lparr>retry_success = False, synced = 0\<rparr>
            \<and> (\<exists>x. getPendingSaves (snd (retryPendingSaves s e)) = Inr (sliceLast 5 (q @ [x]))))"
proof (intro conjI impI)
  assume "\<not> truthy (loadToken_A s)"
  then show "retryPendingSaves s e = (Inr \<lparr>retry_success = False, synced = 0\<rparr>, s)"
    using assms by (simp add: retryPendingSaves_def)
next
  assume t: "truthy (loadToken_A s)"
    and r: "fst (saveWorkoutData_A s (last q) e) = Inr r"
    and f: "\<not> (success r \<and> error r = None)"
  show "fst (retryPendingSaves s e) = Inr \<lparr>retry_success = False, synced = 0\<rparr>"
    using r f by (simp add: retryPendingSaves_unfold [OF assms t])
next
  assume t: "truthy (loadToken_A s)"
    and r: "fst (saveWorkoutData_A s (last q) e) = Inr r"
    and f: "\<not> (success r \<and> error r = None)"
  have "error r \<noteq> None"
  proof
    assume "error r = None"
    then have "fst (saveWorkoutData_A s (last q) e) \<noteq> Inr r"
      using f by (auto simp: saveWorkoutData_A_unfold split: sum.splits prod.splits if_splits)
    then show False using r by simp
  qed
  then have "pending_item (snd (saveWorkoutData_A s (last q) e)) =
      Holds (sliceLast 5 (queueOf s @ [pendingEntry (last q) (now_queue e)]))"
    using r by (simp add: saveWorkoutData_A_pending)
  moreover have "queueOf s = q"
    using assms(1) getPendingSaves_Inr by blast
  moreover have "snd (retryPendingSaves s e) = snd (saveWorkoutData_A s (last q) e)"
    using r \<open>error r \<noteq> None\<close> by (auto simp: retryPendingSaves_unfold [OF assms t])
  ultimately have "getPendingSaves (snd (retryPendingSaves s e)) =
      Inr (sliceLast 5 (q @ [pendingEntry (last q) (now_queue e)]))"
    by (simp add: getPendingSaves_def parseItem_def)
  then show "\<exists>x. getPendingSaves (snd (retryPendingSaves s e)) = Inr (sliceLast 5 (q @ [x]))"
    by blast
qed

theorem failed_retry_requeues_witness:
  "getPendingSaves queuedBrowser = Inr [pendingEntry (sampleDoc 2) (js ''T3'')]
   \<and> truthy (loadToken_A queuedBrowser)
   \<and> fst (saveWorkoutData_A queuedBrowser (pendingEntry (sampleDoc 2) (js ''T3'')) rejecting) =
       Inr \<lparr>success = True, error = Some (SyncFailed ApiError)\<rparr>
   \<and> fst (retryPendingSaves queuedBrowser rejecting) = Inr \<lparr>retry_success = False, synced = 0\<rparr>
   \<and> (\<exists>x. getPendingSaves (snd (retryPendingSaves queuedBrowser rejecting)) =
         Inr (sliceLast 5 ([pendingEntry (sampleDoc 2) (js ''T3'')] @ [x])))"
proof -
  have q: "getPendingSaves queuedBrowser = Inr [pendingEntry (sampleDoc 2) (js ''T3'')]"
    by (simp add: sample_defs coordinator_defs)
  have t: "truthy (loadToken_A queuedBrowser)"
    by (simp add: sample_defs coordinator_defs js_def)
  have r: "fst (saveWorkoutData_A queuedBrowser (last [pendingEntry (sampleDoc 2) (js ''T3'')]) rejecting) =
       Inr \<lparr>success = True, error = Some (SyncFailed ApiError)\<rparr>"
    by (simp add: sample_defs coordinator_defs client_defs codec_defs)
  show ?thesis
    using failed_retry_requeues [OF q, of rejecting "\<lparr>success = True, error = Some (SyncFailed ApiError)\<rparr>"]
      q t r by simp
qed

text \<open>
  C5, success subsumes the backlog. Whatever the queue holds: a save that returns success
  without a message leaves the queue empty, and so does a retry that returns success. A
  save whose getFile and commitFile both return does return success without a message, and
  a retry on a queue that is not empty, whose save reaches that, returns
  \<^verbatim>\<open>{success: true, synced: 1}\<close>.
\<close>

theorem success_clears_queue:
  "(fst (saveWorkoutData_A s d e) = Inr r \<longrightarrow> error r = None \<longrightarrow>
      getPendingSaves (snd (saveWorkoutData_A s d e)) = Inr [])
   \<and> (fst (retryPendingSaves s e) = Inr rr \<longrightarrow> retry_success rr \<longrightarrow>
      getPendingSaves (snd (retryPendingSaves s e)) = Inr [])
   \<and> (readable (cache_item s) \<longrightarrow> loadToken_A s = Some token \<longrightarrow> token \<noteq> [] \<longrightarrow>
      getFile_result (Some token) (get_response e) = Inr remote \<longrightarrow>
      commitFile_result (Some token) (JSON_stringify e d) (put_response e) = Inr result \<longrightarrow>
      fst (saveWorkoutData_A s d e) = Inr \<lparr>success = True, error = None\<rparr>)
   \<and> (readable (cache_item s) \<longrightarrow> loadToken_A s = Some token \<longrightarrow> token \<noteq> [] \<longrightarrow>
      getPendingSaves s = Inr q \<longrightarrow> q \<noteq> [] \<longrightarrow>
      getFile_result (Some token) (get_response e) = Inr remote \<longrightarrow>
      commitFile_result (Some token) (JSON_stringify e (last q)) (put_response e) = Inr result \<longrightarrow>
      fst (retryPendingSaves s e) = Inr \<lparr>retry_success = True, synced = 1\<rparr>)"
proof (intro conjI impI)
  assume "fst (saveWorkoutData_A s d e) = Inr r" and "error r = None"
  then show "getPendingSaves (snd (saveWorkoutData_A s d e)) = Inr []"
    by (simp add: getPendingSaves_def parseItem_def saveWorkoutData_A_pending)
next
  assume "fst (retryPendingSaves s e) = Inr rr" and "retry_success rr"
  then show "getPendingSaves (snd (retryPendingSaves s e)) = Inr []"
    by (rule retryPendingSaves_success_queue)
next
  assume h: "readable (cache_item s)" "loadToken_A s = Some token" "token \<noteq> []"
    "getFile_result (Some token) (get_response e) = Inr remote"
    "commitFile_result (Some token) (JSON_stringify e d) (put_response e) = Inr result"
  show "fst (saveWorkoutData_A s d e) = Inr \<lparr>success = True, error = None\<rparr>"
    using h by (rule saveWorkoutData_A_synced)
next
  assume h: "readable (cache_item s)" "loadToken_A s = Some token" "token \<noteq> []"
    "getPendingSaves s = Inr q" "q \<noteq> []"
    "getFile_result (Some token) (get_response e) = Inr remote"
    "commitFile_result (Some token) (JSON_stringify e (last q)) (put_response e) = Inr result"
  have "fst (saveWorkoutData_A s (last q) e) = Inr \<lparr>success = True, error = None\<rparr>"
    using h(1,2,3,6,7) by (rule saveWorkoutData_A_synced)
  moreover have "truthy (loadToken_A s)" using h by simp
  ultimately show "fst (retryPendingSaves s e) = Inr \<lparr>retry_success = True, synced = 1\<rparr>"
    using h by (simp add: retryPendingSaves_unfold)
qed


theorem success_clears_queue_witness:
  "getPendingSaves backlogBrowser =
       Inr [pendingEntry (sampleDoc 1) (js ''T1''), pendingEntry (sampleDoc 2) (js ''T2''),
            pendingEntry (sampleDoc 3) (js ''T3'')]
   \<and> fst (saveWorkoutData_A backlogBrowser (sampleDoc 4) accepting) =
       Inr \<lparr>success = True, error = None\<rparr>
   \<and> getPendingSaves (snd (saveWorkoutData_A backlogBrowser (sampleDoc 4) accepting)) = Inr []
   \<and> fst (retryPendingSaves backlogBrowser accepting) = Inr \<lparr>retry_success = True, synced = 1\<rparr>
   \<and> getPendingSaves (snd (retryPendingSaves backlogBrowser accepting)) = Inr []"
proof -
  have q: "getPendingSaves backlogBrowser =
       Inr [pendingEntry (sampleDoc 1) (js ''T1''), pendingEntry (sampleDoc 2) (js ''T2''),
            pendingEntry (sampleDoc 3) (js ''T3'')]"
    by (simp add: sample_defs getPendingSaves_def parseItem_def)
  have c: "readable (cache_item backlogBrowser)"
    and t: "loadToken_A backlogBrowser = Some (js ''ghp_1'')" "js ''ghp_1'' \<noteq> []"
    by (simp_all add: sample_defs readable_def loadToken_A_def js_def)
  have g: "getFile_result (Some (js ''ghp_1'')) (get_response accepting) = Inr None"
    by (simp add: sample_defs client_defs js_def)
  have p: "commitFile_result (Some (js ''ghp_1'')) (JSON_stringify accepting d) (put_response accepting)
      = Inr \<lparr>new_sha = Some (JStr (js ''def'')), commit = None\<rparr>" for d
    by (simp add: sample_defs client_defs codec_defs)
  show ?thesis
    using success_clears_queue [of backlogBrowser "sampleDoc 4" accepting
        "\<lparr>success = True, error = None\<rparr>" "\<lparr>retry_success = True, synced = 1\<rparr>" "js ''ghp_1''"
        None "\<lparr>new_sha = Some (JStr (js ''def'')), commit = None\<rparr>"
        "[pendingEntry (sampleDoc 1) (js ''T1''), pendingEntry (sampleDoc 2) (js ''T2''),
            pendingEntry (sampleDoc 3) (js ''T3'')]"]
      q c t g p
    by simp
qed

text \<open>
  C6, the bound of the queue. addPendingSave leaves the last five of the queue with the new
  entry added at its end, so at most five entries, the oldest dropped first. No operation
  of mode A makes a queue of at most five entries longer than five. Any run of failed saves
  (each returns with a message), from a queue \<open>q\<close> of at most five entries, leaves exactly
  the last five of \<open>q\<close> followed by the entries of the saved documents, in the order of the
  saves; seven failed saves from an empty queue leave the entries of the last five
  documents.
\<close>

theorem queue_bound_fifo:
  "(addPendingSave s d t = Inr s' \<longrightarrow> getPendingSaves s = Inr q \<longrightarrow>
      getPendingSaves s' = Inr (sliceLast 5 (q @ [pendingEntry d t]))
      \<and> length (queueOf s') \<le> 5)
   \<and> (length (queueOf s) \<le> 5 \<longrightarrow>
      length (queueOf (snd (initWorkoutData_A s e))) \<le> 5
      \<and> length (queueOf (snd (saveWorkoutData_A s d e))) \<le> 5
      \<and> length (queueOf (snd (retryPendingSaves s e))) \<le> 5
      \<and> length (queueOf (snd (getSyncStatus_A s))) \<le> 5)
   \<and> (getPendingSaves s = Inr q \<longrightarrow> length q \<le> 5 \<longrightarrow>
      list_all reportsFailure (fst (runSaves_A s des)) \<longrightarrow>
      getPendingSaves (snd (runSaves_A s des)) =
        Inr (sliceLast 5 (q @ map (\<lambda>(d, e). pendingEntry d (now_queue e)) des)))"
proof (intro conjI impI)
  assume a: "addPendingSave s d t = Inr s'" and q: "getPendingSaves s = Inr q"
  have p: "pending_item s' = Holds (sliceLast 5 (queueOf s @ [pendingEntry d t]))"
    using addPendingSave_queue [OF a] by simp
  have "queueOf s = q" using q getPendingSaves_Inr by blast
  then show "getPendingSaves s' = Inr (sliceLast 5 (q @ [pendingEntry d t]))"
    using p by (simp add: getPendingSaves_def parseItem_def)
  show "length (queueOf s') \<le> 5"
    using p by (simp add: queueOf_def sliceLast_length)
next
  assume b: "length (queueOf s) \<le> 5"
  show "length (queueOf (snd (initWorkoutData_A s e))) \<le> 5"
    using b by (simp add: queueOf_def initWorkoutData_A_pending)
  show "length (queueOf (snd (saveWorkoutData_A s d e))) \<le> 5"
    using b by (rule queueOf_save_bound)
  show "length (queueOf (snd (retryPendingSaves s e))) \<le> 5"
    using b by (rule queueOf_retry_bound)
  show "length (queueOf (snd (getSyncStatus_A s))) \<le> 5"
    using b by (simp add: getSyncStatus_A_snd)
next
  assume q: "getPendingSaves s = Inr q" and l: "length q \<le> 5"
    and f: "list_all reportsFailure (fst (runSaves_A s des))"
  have s: "pending_item s \<noteq> Corrupt" "queueOf s = q"
    using q getPendingSaves_Inr by blast+
  then have "pending_item (snd (runSaves_A s des)) \<noteq> Corrupt \<and>
     queueOf (snd (runSaves_A s des)) =
       sliceLast 5 (queueOf s @ map (\<lambda>(d, e). pendingEntry d (now_queue e)) des)"
    using runSaves_A_queue l f by blast
  then show "getPendingSaves (snd (runSaves_A s des)) =
        Inr (sliceLast 5 (q @ map (\<lambda>(d, e). pendingEntry d (now_queue e)) des))"
    using s by (simp add: getPendingSaves_queue)
qed

theorem queue_bound_fifo_witness:
  "getPendingSaves freshBrowser = Inr []
   \<and> list_all reportsFailure
       (fst (runSaves_A freshBrowser
          [(sampleDoc 1, offline), (sampleDoc 2, offline), (sampleDoc 3, offline),
           (sampleDoc 4, offline), (sampleDoc 5, offline), (sampleDoc 6, offline),
           (sampleDoc 7, offline)]))
   \<and> getPendingSaves
       (snd (runSaves_A freshBrowser
          [(sampleDoc 1, offline), (sampleDoc 2, offline), (sampleDoc 3, offline),
           (sampleDoc 4, offline), (sampleDoc 5, offline), (sampleDoc 6, offline),
           (sampleDoc 7, offline)])) =
       Inr [pendingEntry (sampleDoc 3) (js ''T3''), pendingEntry (sampleDoc 4) (js ''T3''),
            pendingEntry (sampleDoc 5) (js ''T3''), pendingEntry (sampleDoc 6) (js ''T3''),
            pendingEntry (sampleDoc 7) (js ''T3'')]"
proof -
  have q: "getPendingSaves freshBrowser = Inr []"
    by (simp add: freshBrowser_def getPendingSaves_def parseItem_def)
  have f: "list_all reportsFailure
       (fst (runSaves_A freshBrowser
          [(sampleDoc 1, offline), (sampleDoc 2, offline), (sampleDoc 3, offline),
           (sampleDoc 4, offline), (sampleDoc 5, offline), (sampleDoc 6, offline),
           (sampleDoc 7, offline)]))"
    by (simp add: freshBrowser_def offline_def coordinator_defs reportsFailure_def)
  show ?thesis
    using queue_bound_fifo [of freshBrowser _ _ _ "[]" _
        "[(sampleDoc 1, offline), (sampleDoc 2, offline), (sampleDoc 3, offline),
           (sampleDoc 4, offline), (sampleDoc 5, offline), (sampleDoc 6, offline),
           (sampleDoc 7, offline)]"] q f
    by (simp add: sliceLast_def offline_def)
qed

text \<open>
  C7, a rejected remote write. The cache item is readable, the queue parses, a token is
  there, getFile returned and commitFile throws \<open>err\<close> (as it does whenever the response
  to the PUT is not ok, for instance because the revision sent is stale). In mode A the
  save returns \<^verbatim>\<open>success: true\<close> with the sync-failed message, the queue is the last
  five of the earlier queue with the entry of the document added at its end, and the cache
  holds the document. In mode B the save returns \<^verbatim>\<open>success: false\<close> with the message,
  and the cache holds the document.
\<close>

theorem rejected_write_outcome:
  "(readable (cache_item s) \<longrightarrow> getPendingSaves s = Inr q \<longrightarrow>
      loadToken_A s = Some token \<longrightarrow> token \<noteq> [] \<longrightarrow>
      getFile_result (Some token) (get_response e) = Inr remote \<longrightarrow>
      commitFile_result (Some token) (JSON_stringify e d) (put_response e) = Inl err \<longrightarrow>
        fst (saveWorkoutData_A s d e) = Inr \<lparr>success = True, error = Some (SyncFailed err)\<rparr>
        \<and> getPendingSaves (snd (saveWorkoutData_A s d e)) =
            Inr (sliceLast 5 (q @ [pendingEntry d (now_queue e)]))
        \<and> (\<exists>sha. cache_item (snd (saveWorkoutData_A s d e)) =
              Holds (cacheEntry d sha (now_sync e))))
   \<and> (loadToken_B s = Some token \<longrightarrow>
      getFile_result (Some token) (get_response e) = Inr remote \<longrightarrow>
      commitFile_result (Some token) (JSON_stringify e d) (put_response e) = Inl err \<longrightarrow>
        fst (saveWorkoutData_B s d e) = Inr \<lparr>success = False, error = Some (SaveFailed err)\<rparr>
        \<and> cache_item (snd (saveWorkoutData_B s d e)) = Holds (cacheEntry d None (now_sync e)))
   \<and> (truthy (Some token) \<longrightarrow> put_response e = Response st b \<longrightarrow> \<not> ok st \<longrightarrow>
        (\<exists>err. commitFile_result (Some token) (JSON_stringify e d) (put_response e) = Inl err))"
proof (intro conjI impI)
  assume h: "readable (cache_item s)" "getPendingSaves s = Inr q"
    "loadToken_A s = Some token" "token \<noteq> []"
    "getFile_result (Some token) (get_response e) = Inr remote"
    "commitFile_result (Some token) (JSON_stringify e d) (put_response e) = Inl err"
  have p: "pending_item s \<noteq> Corrupt" and q: "queueOf s = q"
    using h(2) getPendingSaves_Inr by blast+
  show r: "fst (saveWorkoutData_A s d e) = Inr \<lparr>success = True, error = Some (SyncFailed err)\<rparr>"
    using h p by (simp add: saveWorkoutData_A_result)
  show "getPendingSaves (snd (saveWorkoutData_A s d e)) =
            Inr (sliceLast 5 (q @ [pendingEntry d (now_queue e)]))"
    using r q by (simp add: getPendingSaves_def parseItem_def saveWorkoutData_A_pending)
  show "\<exists>sha. cache_item (snd (saveWorkoutData_A s d e)) = Holds (cacheEntry d sha (now_sync e))"
    using r by (rule saveWorkoutData_A_cache)
next
  assume h: "loadToken_B s = Some token"
    "getFile_result (Some token) (get_response e) = Inr remote"
    "commitFile_result (Some token) (JSON_stringify e d) (put_response e) = Inl err"
  show "fst (saveWorkoutData_B s d e) = Inr \<lparr>success = False, error = Some (SaveFailed err)\<rparr>"
    using h by (simp add: saveWorkoutData_B_result)
  show "cache_item (snd (saveWorkoutData_B s d e)) = Holds (cacheEntry d None (now_sync e))"
    by (rule saveWorkoutData_B_cache)
next
  assume "truthy (Some token)" "put_response e = Response st b" "\<not> ok st"
  then show "\<exists>err. commitFile_result (Some token) (JSON_stringify e d) (put_response e) = Inl err"
    using commitFile_rejected by blast
qed

theorem rejected_write_outcome_witness:
  "readable (cache_item signedIn) \<and> getPendingSaves signedIn = Inr []
   \<and> loadToken_A signedIn = Some (js ''ghp_1'') \<and> loadToken_B signedIn = Some (js ''ghp_1'')
   \<and> getFile_result (Some (js ''ghp_1'')) (get_response rejecting) = Inr None
   \<and> put_response rejecting =
       Response 409 (Parsed (JObj [(js ''message'', JStr (js ''conflict''))]))
   \<and> \<not> ok 409
   \<and> commitFile_result (Some (js ''ghp_1'')) (JSON_stringify rejecting (sampleDoc 2))
         (put_response rejecting) = Inl ApiError
   \<and> fst (saveWorkoutData_A signedIn (sampleDoc 2) rejecting) =
       Inr \<lparr>success = True, error = Some (SyncFailed ApiError)\<rparr>
   \<and> getPendingSaves (snd (saveWorkoutData_A signedIn (sampleDoc 2) rejecting)) =
       Inr [pendingEntry (sampleDoc 2) (js ''T3'')]
   \<and> (\<exists>sha. cache_item (snd (saveWorkoutData_A signedIn (sampleDoc 2) rejecting)) =
         Holds (cacheEntry (sampleDoc 2) sha (js ''T1'')))
   \<and> fst (saveWorkoutData_B signedIn (sampleDoc 2) rejecting) =
       Inr \<lparr>success = False, error = Some (SaveFailed ApiError)\<rparr>
   \<and> cache_item (snd (saveWorkoutData_B signedIn (sampleDoc 2) rejecting)) =
       Holds (cacheEntry (sampleDoc 2) None (js ''T1''))"
proof -
  have c: "readable (cache_item signedIn)" and q: "getPendingSaves signedIn = Inr []"
    and a: "loadToken_A signedIn = Some (js ''ghp_1'')" and n: "js ''ghp_1'' \<noteq> []"
    by (simp_all add: sample_defs readable_def getPendingSaves_def parseItem_def loadToken_A_def
        js_def)
  have b: "loadToken_B signedIn = Some (js ''ghp_1'')"
    by (simp add: sample_defs loadToken_B_def js_def)
  have g: "getFile_result (Some (js ''ghp_1'')) (get_response rejecting) = Inr None"
    by (simp add: sample_defs client_defs js_def)
  have r: "put_response rejecting =
       Response 409 (Parsed (JObj [(js ''message'', JStr (js ''conflict''))]))" "\<not> ok 409"
    by (simp_all add: sample_defs ok_def)
  have p: "commitFile_result (Some (js ''ghp_1'')) (JSON_stringify rejecting (sampleDoc 2))
         (put_response rejecting) = Inl ApiError"
    by (simp add: sample_defs client_defs codec_defs)
  have t: "now_queue rejecting = js ''T3''" "now_sync rejecting = js ''T1''"
    by (simp_all add: sample_defs)
  show ?thesis
    using rejected_write_outcome [of signedIn "[]" "js ''ghp_1''" rejecting None "sampleDoc 2"
        ApiError 409 "Parsed (JObj [(js ''message'', JStr (js ''conflict''))])"]
      c q a n b g r p t
    by (simp add: sliceLast_def)
qed

text \<open>
  C10, the remote client always has its token. In every state and for every answer of the
  network, each invocation of getFile or commitFile that initWorkoutData, saveWorkoutData
  or retryPendingSaves makes, in either variant, finds a truthy \<^verbatim>\<open>authToken\<close> (mode B's
  initWorkoutData makes none). With a truthy token neither getFile nor commitFile throws
  its token-not-set error, and no save reports it.
\<close>

theorem remote_client_always_has_token:
  "(\<exists>cs. calls (snd (initWorkoutData_A s e)) = calls s @ cs
        \<and> list_all (\<lambda>c. truthy (callToken c)) cs)
   \<and> calls (snd (initWorkoutData_B s e)) = calls s
   \<and> (\<exists>cs. calls (snd (saveWorkoutData_A s d e)) = calls s @ cs
        \<and> list_all (\<lambda>c. truthy (callToken c)) cs)
   \<and> (\<exists>cs. calls (snd (saveWorkoutData_B s d e)) = calls s @ cs
        \<and> list_all (\<lambda>c. truthy (callToken c)) cs)
   \<and> (\<exists>cs. calls (snd (retryPendingSaves s e)) = calls s @ cs
        \<and> list_all (\<lambda>c. truthy (callToken c)) cs)
   \<and> (truthy t \<longrightarrow> getFile_result t r \<noteq> Inl TokenNotSet
        \<and> commitFile_result t content r \<noteq> Inl TokenNotSet)
   \<and> fst (saveWorkoutData_A s d e) \<noteq> Inr \<lparr>success = True, error = Some (SyncFailed TokenNotSet)\<rparr>
   \<and> fst (saveWorkoutData_B s d e) \<noteq> Inr \<lparr>success = False, error = Some (SaveFailed TokenNotSet)\<rparr>"
  using initWorkoutData_A_calls [of s e] initWorkoutData_B_calls [of s e]
    saveWorkoutData_A_calls [of s d e] saveWorkoutData_B_calls [of s d e]
    retryPendingSaves_calls [of s e] getFile_result_not_token [of t r]
    commitFile_result_not_token [of t content r]
    saveWorkoutData_A_no_token_error [of s d e] saveWorkoutData_B_no_token_error [of s d e]
  by blast

theorem remote_client_always_has_token_witness:
  "calls (snd (saveWorkoutData_A signedIn (sampleDoc 2) accepting)) =
       [GetFileCall (Some (js ''ghp_1'')),
        CommitFileCall (Some (js ''ghp_1'')) (js ''{}'') (Some JNull)]
   \<and> calls (snd (initWorkoutData_A signedIn accepting)) = [GetFileCall (Some (js ''ghp_1''))]
   \<and> truthy (Some (js ''ghp_1''))
   \<and> getFile_result (Some (js ''ghp_1'')) Rejected = Inl NetworkError
   \<and> fst (saveWorkoutData_A signedIn (sampleDoc 2) offline) =
        Inr \<lparr>success = True, error = Some (SyncFailed NetworkError)\<rparr>"
  using remote_client_always_has_token [of signedIn accepting "sampleDoc 2" "Some (js ''ghp_1'')"
      Rejected "js ''{}''"]
  by (simp add: sample_defs coordinator_defs client_defs codec_defs)

text \<open>
  C8, as the code has it. commitFile encodes the one-character string U+00E9 as the base64
  of its two UTF-8 octets, \<^verbatim>\<open>w6k=\<close>; getFile decodes that to the two-character string
  U+00C3 U+00A9, one character per octet, not to the string that was encoded.
\<close>

theorem base64_decode_is_not_inverse_of_encode:
  "commitFile_encode [0xE9] = Inr (js ''w6k='')
   \<and> getFile_decode (js ''w6k='') = Inr [0xC3, 0xA9]
   \<and> [0xC3, 0xA9] \<noteq> [0xE9 :: 16 word]"
  by (simp add: codec_defs)

end
